theory Spec2Isabelle
  imports Complex_Main "HOL-Library.AList" "HOL-Library.List_Lexorder" "HOL-Library.Char_ord"
begin

section \<open>JavaScript values\<close>

text \<open>
  Strings are lists of code units.  An optional field of a JSON payload or of an options
  object is an \<open>option\<close>; JavaScript's truthiness test on such a field (\<open>if (data.x)\<close>)
  holds when the field is present and not the empty string.
\<close>

definition truthy :: "string option \<Rightarrow> bool" where
  "truthy v = (case v of None \<Rightarrow> False | Some s \<Rightarrow> s \<noteq> [])"

text \<open>
  \<open>xs.slice(0, e)\<close> for an integral \<open>e\<close>: a negative end counts from the end of the
  array, and the end is clamped to the array.
\<close>

definition js_slice0 :: "'a list \<Rightarrow> int \<Rightarrow> 'a list" where
  "js_slice0 xs e =
     (let len = int (length xs);
          final = (if e < 0 then max (len + e) 0 else min e len)
      in take (nat final) xs)"

section \<open>Knowledge base: tables\<close>

datatype SourceType = Article | Video | Pdf | Text | Tweet | Other

type_synonym buffer = "nat list"

record KBSource =
  src_id :: string
  src_group_folder :: string
  src_url :: "string option"
  src_title :: "string option"
  src_source_type :: SourceType
  src_raw_content :: string
  src_content_hash :: string
  src_tags :: "string list option"
  src_created_at :: string
  src_updated_at :: string

record KBChunk =
  chunk_id :: int
  chunk_source_id :: string
  chunk_index :: nat
  chunk_content :: string
  chunk_embedding :: "buffer option"
  chunk_embedding_dim :: "nat option"
  chunk_embedding_provider :: "string option"
  chunk_embedding_model :: "string option"
  chunk_created_at :: string

text \<open>
  The two tables \<open>kb_sources\<close> and \<open>kb_chunks\<close>, in insertion order, and the
  module-level availability flag of the embeddings provider (\<open>isAvailable()\<close> reads it,
  \<open>setAvailable\<close> writes it).
\<close>

record kb_store =
  kb_sources :: "KBSource list"
  kb_chunks :: "KBChunk list"
  kb_available :: bool

text \<open>
  The embeddings module (\<open>./embeddings.js\<close>) is an external collaborator: its functions
  are parameters of the model.  \<open>generateEmbeddingsBatch\<close> returns one entry per chunk,
  \<open>None\<close> where no embedding was produced, and the availability flag it leaves behind.
  Similarities are floating-point numbers of which the code only uses comparisons; they
  are modelled as reals.
\<close>

record embeddings_api =
  generateEmbedding :: "string \<Rightarrow> real list option"
  generateEmbeddingsBatch :: "string list \<Rightarrow> real list option list \<times> bool"
  cosineSimilarity :: "real list \<Rightarrow> real list \<Rightarrow> real"
  serializeFloat32 :: "real list \<Rightarrow> buffer"
  deserializeFloat32 :: "buffer \<Rightarrow> real list"

section \<open>Knowledge base: semantic search\<close>

record SearchOptions =
  so_groupFolder :: "string option"
  so_limit :: "int option"
  so_minSimilarity :: "real option"
  so_dedupeBySource :: "bool option"

record SearchRow =
  row_id :: int
  row_source_id :: string
  row_content :: string
  row_embedding :: "buffer option"
  row_source_url :: "string option"
  row_source_title :: "string option"
  row_source_type :: SourceType

record SearchResult =
  sr_chunk_id :: int
  sr_source_id :: string
  sr_source_url :: "string option"
  sr_source_title :: "string option"
  sr_source_type :: SourceType
  sr_content :: string
  sr_similarity :: real

text \<open>The defaults of the destructured options: \<open>limit = 10\<close>, \<open>minSimilarity = 0.7\<close>,
  \<open>dedupeBySource = true\<close>.\<close>

definition limit_of :: "SearchOptions \<Rightarrow> int" where
  "limit_of opts = (case so_limit opts of None \<Rightarrow> 10 | Some l \<Rightarrow> l)"

definition minSimilarity_of :: "SearchOptions \<Rightarrow> real" where
  "minSimilarity_of opts = (case so_minSimilarity opts of None \<Rightarrow> 0.7 | Some m \<Rightarrow> m)"

definition dedupeBySource_of :: "SearchOptions \<Rightarrow> bool" where
  "dedupeBySource_of opts = (case so_dedupeBySource opts of None \<Rightarrow> True | Some d \<Rightarrow> d)"

text \<open>
  The query of \<open>search\<close>: chunks joined with their source, with an embedding, and of the
  given group when \<open>groupFolder\<close> is truthy.
\<close>

definition in_scope :: "string option \<Rightarrow> KBSource \<Rightarrow> bool" where
  "in_scope groupFolder s =
     (case groupFolder of None \<Rightarrow> True
      | Some g \<Rightarrow> if g = [] then True else src_group_folder s = g)"

definition join_row :: "KBChunk \<Rightarrow> KBSource \<Rightarrow> SearchRow" where
  "join_row c s =
     \<lparr> row_id = chunk_id c, row_source_id = chunk_source_id c, row_content = chunk_content c,
       row_embedding = chunk_embedding c, row_source_url = src_url s,
       row_source_title = src_title s, row_source_type = src_source_type s \<rparr>"

definition select_rows :: "kb_store \<Rightarrow> string option \<Rightarrow> SearchRow list" where
  "select_rows db groupFolder =
     concat (map (\<lambda>c. map (join_row c)
        (filter (\<lambda>s. chunk_source_id c = src_id s \<and> chunk_embedding c \<noteq> None
                      \<and> in_scope groupFolder s) (kb_sources db))) (kb_chunks db))"

text \<open>The loop that scores every row against the query and keeps those at or above
  the threshold, in row order.\<close>

fun score_rows :: "embeddings_api \<Rightarrow> real list \<Rightarrow> real \<Rightarrow> SearchRow list \<Rightarrow> SearchResult list" where
  "score_rows api queryEmbedding minSimilarity [] = []"
| "score_rows api queryEmbedding minSimilarity (row # rows) =
     (case row_embedding row of
        None \<Rightarrow> score_rows api queryEmbedding minSimilarity rows
      | Some buf \<Rightarrow>
          (let similarity = cosineSimilarity api queryEmbedding (deserializeFloat32 api buf) in
           if similarity \<ge> minSimilarity
           then \<lparr> sr_chunk_id = row_id row, sr_source_id = row_source_id row,
                  sr_source_url = row_source_url row, sr_source_title = row_source_title row,
                  sr_source_type = row_source_type row, sr_content = row_content row,
                  sr_similarity = similarity \<rparr>
                # score_rows api queryEmbedding minSimilarity rows
           else score_rows api queryEmbedding minSimilarity rows))"

text \<open>
  \<open>results.sort((a, b) => b.similarity - a.similarity)\<close>: the array sort is stable, so
  its result is the stable arrangement by descending similarity.
\<close>

fun insert_desc :: "SearchResult \<Rightarrow> SearchResult list \<Rightarrow> SearchResult list" where
  "insert_desc r [] = [r]"
| "insert_desc r (x # xs) =
     (if sr_similarity x > sr_similarity r then x # insert_desc r xs else r # x # xs)"

definition sort_desc :: "SearchResult list \<Rightarrow> SearchResult list" where
  "sort_desc rs = foldr insert_desc rs []"

text \<open>
  The \<open>bestBySource\<close> map: a JavaScript \<open>Map\<close> keeps its keys in insertion order and
  \<open>set\<close> on an existing key keeps the key's place, which is \<open>AList.update\<close>.
\<close>

fun bestBySource :: "SearchResult list \<Rightarrow> (string \<times> SearchResult) list \<Rightarrow> (string \<times> SearchResult) list" where
  "bestBySource [] m = m"
| "bestBySource (r # rs) m =
     (case map_of m (sr_source_id r) of
        None \<Rightarrow> bestBySource rs (AList.update (sr_source_id r) r m)
      | Some existing \<Rightarrow>
          if sr_similarity r > sr_similarity existing
          then bestBySource rs (AList.update (sr_source_id r) r m)
          else bestBySource rs m)"

definition candidates :: "embeddings_api \<Rightarrow> kb_store \<Rightarrow> real list \<Rightarrow> SearchOptions \<Rightarrow> SearchResult list" where
  "candidates api db queryEmbedding opts =
     score_rows api queryEmbedding (minSimilarity_of opts) (select_rows db (so_groupFolder opts))"

definition search :: "embeddings_api \<Rightarrow> kb_store \<Rightarrow> string \<Rightarrow> SearchOptions \<Rightarrow> SearchResult list" where
  "search api db query opts =
     (if \<not> kb_available db then []
      else case generateEmbedding api query of
        None \<Rightarrow> []
      | Some queryEmbedding \<Rightarrow>
          (let results = sort_desc (candidates api db queryEmbedding opts);
               finalResults =
                 (if dedupeBySource_of opts
                  then sort_desc (map snd (bestBySource results []))
                  else results)
           in js_slice0 finalResults (limit_of opts)))"

text \<open>The invariant of the \<open>bestBySource\<close> map: one entry per key, each filed
  under its own source id.\<close>

definition best_inv :: "(string \<times> SearchResult) list \<Rightarrow> bool" where
  "best_inv m = (distinct (map fst m) \<and> (\<forall>(k, v) \<in> set m. sr_source_id v = k))"

text \<open>A small store and provider, to run the search on.\<close>

definition ex_api :: embeddings_api where
  "ex_api = \<lparr> generateEmbedding = (\<lambda>q. Some [1]),
              generateEmbeddingsBatch =
                (\<lambda>cs. (case cs of [] \<Rightarrow> [] | c # rest \<Rightarrow> Some [8] # map (\<lambda>c. None) rest, True)),
              cosineSimilarity = (\<lambda>q e. sum_list e / 10),
              serializeFloat32 = map (\<lambda>x. nat \<lfloor>x\<rfloor>),
              deserializeFloat32 = map real \<rparr>"

definition ex_source :: "string \<Rightarrow> string \<Rightarrow> KBSource" where
  "ex_source i g = \<lparr> src_id = i, src_group_folder = g, src_url = None, src_title = None,
      src_source_type = Text, src_raw_content = ''note'', src_content_hash = i,
      src_tags = None, src_created_at = ''2026-02-01T10:00:00Z'',
      src_updated_at = ''2026-02-01T10:00:00Z'' \<rparr>"

definition ex_chunk :: "int \<Rightarrow> string \<Rightarrow> nat \<Rightarrow> KBChunk" where
  "ex_chunk n i e = \<lparr> chunk_id = n, chunk_source_id = i, chunk_index = 0, chunk_content = ''note'',
      chunk_embedding = Some [e], chunk_embedding_dim = Some 1,
      chunk_embedding_provider = Some ''ollama'', chunk_embedding_model = Some ''nomic-embed-text'',
      chunk_created_at = ''2026-02-01T10:00:00Z'' \<rparr>"

definition ex_db :: kb_store where
  "ex_db = \<lparr> kb_sources = [ex_source ''kb-1'' ''family'', ex_source ''kb-2'' ''family''],
             kb_chunks = [ex_chunk 1 ''kb-1'' 8, ex_chunk 2 ''kb-1'' 9, ex_chunk 3 ''kb-2'' 7,
                          ex_chunk 4 ''kb-2'' 5],
             kb_available = True \<rparr>"

definition ex_opts :: "int option \<Rightarrow> bool option \<Rightarrow> SearchOptions" where
  "ex_opts l d = \<lparr> so_groupFolder = Some ''family'', so_limit = l, so_minSimilarity = None,
       so_dedupeBySource = d \<rparr>"

section \<open>Knowledge base: storage\<close>

text \<open>
  The storage module (\<open>./storage.js\<close>) is not among the sources; the ingestion pipeline
  and the IPC handlers call it by the signatures below.
\<close>

text \<open>Modelled from the spec: \<open>getSourceByUrl(url)\<close> of the missing storage module, the
  stored source with this (normalized) URL.  The pipeline passes the URL only.\<close>

definition getSourceByUrl :: "kb_store \<Rightarrow> string \<Rightarrow> KBSource option" where
  "getSourceByUrl db url = find (\<lambda>s. src_url s = Some url) (kb_sources db)"

text \<open>Modelled from the spec: \<open>getSourceByHash(hash)\<close> of the missing storage module, the
  stored source with this content hash.  The pipeline passes the hash only.\<close>

definition getSourceByHash :: "kb_store \<Rightarrow> string \<Rightarrow> KBSource option" where
  "getSourceByHash db h = find (\<lambda>s. src_content_hash s = h) (kb_sources db)"

text \<open>Modelled from the spec: \<open>createSource(fields)\<close> of the missing storage module appends
  a source row under a new id (\<open>kb-<ts>-<rand>\<close>, here the parameter \<open>new_id\<close>) and
  returns it.\<close>

definition createSource ::
  "string \<Rightarrow> string \<Rightarrow> string \<Rightarrow> string option \<Rightarrow> string \<Rightarrow> SourceType \<Rightarrow> string \<Rightarrow> string
     \<Rightarrow> string list option \<Rightarrow> kb_store \<Rightarrow> KBSource \<times> kb_store" where
  "createSource new_id now group_folder url title source_type raw_content content_hash tags db =
     (let s = \<lparr> src_id = new_id, src_group_folder = group_folder, src_url = url,
                 src_title = Some title, src_source_type = source_type,
                 src_raw_content = raw_content, src_content_hash = content_hash,
                 src_tags = tags, src_created_at = now, src_updated_at = now \<rparr>
      in (s, db\<lparr>kb_sources := kb_sources db @ [s]\<rparr>))"

text \<open>Modelled from the spec: \<open>updateSource(id, fields)\<close> of the missing storage module
  rewrites the row with this id and keeps \<open>created_at\<close>.\<close>

definition updateSource ::
  "string \<Rightarrow> string \<Rightarrow> string option \<Rightarrow> string option \<Rightarrow> string \<Rightarrow> string \<Rightarrow> string list option
     \<Rightarrow> kb_store \<Rightarrow> kb_store" where
  "updateSource now ident url title raw_content content_hash tags db =
     db\<lparr>kb_sources := map (\<lambda>s. if src_id s = ident
          then s\<lparr>src_url := url, src_title := title, src_raw_content := raw_content,
                 src_content_hash := content_hash, src_tags := tags, src_updated_at := now\<rparr>
          else s) (kb_sources db)\<rparr>"

text \<open>Modelled from the spec: \<open>deleteChunksBySourceId(id)\<close> of the missing storage
  module removes the chunks of one source.\<close>

definition deleteChunksBySourceId :: "string \<Rightarrow> kb_store \<Rightarrow> kb_store" where
  "deleteChunksBySourceId ident db =
     db\<lparr>kb_chunks := filter (\<lambda>c. chunk_source_id c \<noteq> ident) (kb_chunks db)\<rparr>"

text \<open>Modelled from the spec: \<open>createChunk(fields)\<close> of the missing storage module appends
  a chunk row; the table numbers its rows.\<close>

definition createChunk :: "string \<Rightarrow> string \<Rightarrow> nat \<Rightarrow> string \<Rightarrow> buffer \<Rightarrow> nat \<Rightarrow> kb_store \<Rightarrow> kb_store" where
  "createChunk now source_id idx content embedding edim db =
     db\<lparr>kb_chunks := kb_chunks db @
        [\<lparr> chunk_id = int (length (kb_chunks db)) + 1, chunk_source_id = source_id,
            chunk_index = idx, chunk_content = content, chunk_embedding = Some embedding,
            chunk_embedding_dim = Some edim, chunk_embedding_provider = Some ''ollama'',
            chunk_embedding_model = Some ''nomic-embed-text'', chunk_created_at = now \<rparr>]\<rparr>"

text \<open>Modelled from the spec: \<open>deleteSource(id)\<close> of the missing storage module, "removes
  source and cascades chunks".  It is given the source id only.\<close>

definition storage_deleteSource :: "string \<Rightarrow> kb_store \<Rightarrow> kb_store" where
  "storage_deleteSource ident db =
     db\<lparr>kb_sources := filter (\<lambda>s. src_id s \<noteq> ident) (kb_sources db),
        kb_chunks := filter (\<lambda>c. chunk_source_id c \<noteq> ident) (kb_chunks db)\<rparr>"

section \<open>Knowledge base: ingestion\<close>

record IngestOptions =
  io_groupFolder :: string
  io_url :: "string option"
  io_content :: "string option"
  io_title :: "string option"
  io_sourceType :: "SourceType option"
  io_tags :: "string list option"

record IngestResult =
  ir_success :: bool
  ir_source_id :: "string option"
  ir_chunks_count :: "nat option"
  ir_error :: "string option"
  ir_existingSourceId :: "string option"
  ir_updated :: "bool option"

record ValidationResult =
  vr_valid :: bool
  vr_reason :: "string option"
  vr_truncated :: "bool option"

text \<open>What \<open>await extractContent(url, sourceType)\<close> can do: return a title and a
  content, return null, or throw.\<close>

datatype extract_outcome = Extracted string string | ExtractNull | ExtractThrows string

text \<open>
  The collaborators of the pipeline that are not among the sources (\<open>./dedupe.js\<close>,
  \<open>./quality.js\<close>, \<open>./chunking.js\<close>, \<open>./extractors/index.js\<close>), the clock and
  the id generator.  \<open>detectSourceType\<close> only picks the extractor and the stored
  source type; it is a parameter as well.
\<close>

record ingest_env =
  normalizeUrl :: "string \<Rightarrow> string"
  cleanContent :: "string \<Rightarrow> string"
  generateContentHash :: "string \<Rightarrow> string"
  validateContent :: "string \<Rightarrow> SourceType \<Rightarrow> ValidationResult"
  MAX_CONTENT_LENGTH :: nat
  chunkText :: "string \<Rightarrow> string list"
  extractContent :: "string \<Rightarrow> SourceType \<Rightarrow> extract_outcome"
  detectSourceType :: "string \<Rightarrow> SourceType"
  new_source_id :: "kb_store \<Rightarrow> string"
  now_iso :: string

record finish_params =
  fp_url :: "string option"
  fp_title :: "string option"
  fp_content :: string
  fp_sourceType :: SourceType
  fp_groupFolder :: string
  fp_tags :: "string list option"
  fp_existingSource :: "KBSource option"

definition ingest_failure :: "string option \<Rightarrow> string option \<Rightarrow> IngestResult" where
  "ingest_failure err existing =
     \<lparr> ir_success = False, ir_source_id = None, ir_chunks_count = None, ir_error = err,
       ir_existingSourceId = existing, ir_updated = None \<rparr>"

text \<open>\<open>embeddings[i]\<close>: reading past the end of the array gives \<open>undefined\<close>.\<close>

definition embedding_at :: "real list option list \<Rightarrow> nat \<Rightarrow> real list option" where
  "embedding_at embeddings i = (if i < length embeddings then embeddings ! i else None)"

text \<open>One round of the loop that stores the chunks: a chunk is written under the guard
  \<open>if (emb)\<close> only, and only then counted.\<close>

definition store_chunk ::
  "embeddings_api \<Rightarrow> string \<Rightarrow> string \<Rightarrow> string list \<Rightarrow> real list option list \<Rightarrow> nat
     \<Rightarrow> kb_store \<times> nat \<Rightarrow> kb_store \<times> nat" where
  "store_chunk api now source_id chunks embeddings i acc =
     (case embedding_at embeddings i of
        Some emb \<Rightarrow>
          (createChunk now source_id i (chunks ! i) (serializeFloat32 api emb) (length emb) (fst acc),
           snd acc + 1)
      | None \<Rightarrow> acc)"

definition store_chunks ::
  "embeddings_api \<Rightarrow> string \<Rightarrow> string \<Rightarrow> string list \<Rightarrow> real list option list
     \<Rightarrow> kb_store \<Rightarrow> kb_store \<times> nat" where
  "store_chunks api now source_id chunks embeddings db =
     fold (store_chunk api now source_id chunks embeddings) [0..<length chunks] (db, 0)"

text \<open>The source row of an ingestion: the existing row rewritten, or a new row.\<close>

definition persist_source ::
  "ingest_env \<Rightarrow> finish_params \<Rightarrow> string \<Rightarrow> string \<Rightarrow> kb_store \<Rightarrow> KBSource \<times> kb_store" where
  "persist_source env params finalContent contentHash db =
     (case fp_existingSource params of
        Some existingSource \<Rightarrow>
          (existingSource\<lparr>src_url := fp_url params, src_title := fp_title params,
              src_raw_content := finalContent, src_content_hash := contentHash,
              src_tags := fp_tags params\<rparr>,
           updateSource (now_iso env) (src_id existingSource) (fp_url params)
             (fp_title params) finalContent contentHash (fp_tags params) db)
      | None \<Rightarrow>
          createSource (new_source_id env db) (now_iso env) (fp_groupFolder params)
            (fp_url params)
            (if truthy (fp_title params) then the (fp_title params) else ''Untitled'')
            (fp_sourceType params) finalContent contentHash (fp_tags params) db)"

text \<open>Chunking, embedding (after \<open>setAvailable(true)\<close> the batch call leaves the
  availability flag), the loop that stores the chunks, and the result.\<close>

definition embed_and_store ::
  "ingest_env \<Rightarrow> embeddings_api \<Rightarrow> finish_params \<Rightarrow> string \<Rightarrow> KBSource \<times> kb_store
     \<Rightarrow> IngestResult \<times> kb_store" where
  "embed_and_store env api params finalContent sdb =
     (let source = fst sdb;
          chunks = chunkText env finalContent;
          batch = generateEmbeddingsBatch api chunks;
          stored = store_chunks api (now_iso env) (src_id source) chunks (fst batch)
                     ((snd sdb)\<lparr>kb_available := snd batch\<rparr>)
      in (\<lparr> ir_success = True, ir_source_id = Some (src_id source),
            ir_chunks_count = Some (snd stored), ir_error = None,
            ir_existingSourceId = None,
            ir_updated = Some (fp_existingSource params \<noteq> None) \<rparr>, fst stored))"

definition finishIngestion ::
  "ingest_env \<Rightarrow> embeddings_api \<Rightarrow> finish_params \<Rightarrow> kb_store \<Rightarrow> IngestResult \<times> kb_store" where
  "finishIngestion env api params db =
     (let cleanedContent = cleanContent env (fp_content params);
          validation = validateContent env cleanedContent (fp_sourceType params)
      in if \<not> vr_valid validation then (ingest_failure (vr_reason validation) None, db)
      else
        let finalContent = (if vr_truncated validation = Some True
                            then take (MAX_CONTENT_LENGTH env) cleanedContent
                            else cleanedContent);
            contentHash = generateContentHash env finalContent;
            existingByHash = (if fp_existingSource params = None
                              then getSourceByHash db contentHash else None)
        in case existingByHash of
             Some dup \<Rightarrow>
               (ingest_failure (Some ''Duplicate content (same hash)'') (Some (src_id dup)), db)
           | None \<Rightarrow>
               embed_and_store env api params finalContent
                 (persist_source env params finalContent contentHash db))"

definition ingestUrlInternal ::
  "ingest_env \<Rightarrow> embeddings_api \<Rightarrow> string \<Rightarrow> IngestOptions \<Rightarrow> bool \<Rightarrow> kb_store
     \<Rightarrow> IngestResult \<times> kb_store" where
  "ingestUrlInternal env api url options forceUpdate db =
     (let normalizedUrl = normalizeUrl env url;
          existingByUrl = getSourceByUrl db normalizedUrl
      in if existingByUrl \<noteq> None \<and> \<not> forceUpdate
         then (ingest_failure (Some ''URL already ingested'') (Some (src_id (the existingByUrl))), db)
         else
           let db1 = (case existingByUrl of
                        Some e \<Rightarrow> deleteChunksBySourceId (src_id e) db
                      | None \<Rightarrow> db);
               sourceType = (case io_sourceType options of
                               Some t \<Rightarrow> t
                             | None \<Rightarrow> detectSourceType env url)
           in case extractContent env url sourceType of
                ExtractThrows err \<Rightarrow> (ingest_failure (Some err) None, db1)
              | ExtractNull \<Rightarrow> (ingest_failure (Some ''Content extraction failed'') None, db1)
              | Extracted title content \<Rightarrow>
                  finishIngestion env api
                    \<lparr> fp_url = Some normalizedUrl, fp_title = Some title, fp_content = content,
                      fp_sourceType = sourceType, fp_groupFolder = io_groupFolder options,
                      fp_tags = io_tags options, fp_existingSource = existingByUrl \<rparr> db1)"

definition ingestUrl ::
  "ingest_env \<Rightarrow> embeddings_api \<Rightarrow> string \<Rightarrow> IngestOptions \<Rightarrow> kb_store \<Rightarrow> IngestResult \<times> kb_store" where
  "ingestUrl env api url options db = ingestUrlInternal env api url options False db"

definition updateUrl ::
  "ingest_env \<Rightarrow> embeddings_api \<Rightarrow> string \<Rightarrow> IngestOptions \<Rightarrow> kb_store \<Rightarrow> IngestResult \<times> kb_store" where
  "updateUrl env api url options db = ingestUrlInternal env api url options True db"

text \<open>
  The uniqueness of the data model: no two stored sources of one group share a content
  hash or a URL.
\<close>

definition kb_conflict :: "KBSource \<Rightarrow> KBSource \<Rightarrow> bool" where
  "kb_conflict s t =
     (src_group_folder s = src_group_folder t \<and>
      (src_content_hash s = src_content_hash t \<or> (src_url s \<noteq> None \<and> src_url s = src_url t)))"

fun kb_unique :: "KBSource list \<Rightarrow> bool" where
  "kb_unique [] = True"
| "kb_unique (s # ss) = (list_all (\<lambda>t. \<not> kb_conflict s t) ss \<and> kb_unique ss)"

text \<open>A small pipeline to run the ingestion on: URLs are normalized by dropping a
  trailing slash, the content is cut into two chunks, and the provider either embeds the
  first chunk only (\<open>ex_api\<close>) or is down (\<open>ex_api_down\<close>).\<close>

definition ex_ingest_env :: ingest_env where
  "ex_ingest_env =
     \<lparr> normalizeUrl = (\<lambda>u. if u \<noteq> [] \<and> last u = CHR ''/'' then butlast u else u),
       cleanContent = (\<lambda>c. c),
       generateContentHash = (\<lambda>c. ''sha:'' @ c),
       validateContent = (\<lambda>c t. \<lparr> vr_valid = (c \<noteq> []), vr_reason = Some ''Content too short'',
                                   vr_truncated = None \<rparr>),
       MAX_CONTENT_LENGTH = 4194304,
       chunkText = (\<lambda>c. [take 5 c, drop 5 c]),
       extractContent = (\<lambda>u t. Extracted ''A page'' ''hello world''),
       detectSourceType = (\<lambda>u. Article),
       new_source_id = (\<lambda>db. ''kb-1739451234-abc123''),
       now_iso = ''2026-02-01T10:00:00Z'' \<rparr>"

definition ex_api_down :: embeddings_api where
  "ex_api_down = ex_api\<lparr>generateEmbeddingsBatch := (\<lambda>cs. (map (\<lambda>c. None) cs, False))\<rparr>"

definition ex_params :: finish_params where
  "ex_params = \<lparr> fp_url = None, fp_title = Some ''Note'', fp_content = ''hello world'',
       fp_sourceType = Text, fp_groupFolder = ''family'', fp_tags = None,
       fp_existingSource = None \<rparr>"

definition ex_empty_db :: kb_store where
  "ex_empty_db = \<lparr> kb_sources = [], kb_chunks = [], kb_available = True \<rparr>"

definition ex_ingest_options :: IngestOptions where
  "ex_ingest_options = \<lparr> io_groupFolder = ''family'', io_url = None, io_content = None,
       io_title = None, io_sourceType = None, io_tags = None \<rparr>"

section \<open>Strings and regular expressions of the intake pipeline\<close>

text \<open>
  A code unit is a \<open>char\<close>, so the model covers the strings whose code units are below
  256.  \<open>String.prototype.trim\<close> removes white space and line terminators at both ends;
  below 256 these are tab, line feed, vertical tab, form feed, carriage return, space and
  the no-break space.
\<close>

definition js_whitespace :: "char \<Rightarrow> bool" where
  "js_whitespace c = ((of_char c :: nat) \<in> {9, 10, 11, 12, 13, 32, 160})"

definition js_trim :: "string \<Rightarrow> string" where
  "js_trim s = rev (dropWhile js_whitespace (rev (dropWhile js_whitespace s)))"

text \<open>\<open>s.replace(/c/g, r)\<close> for a single character \<open>c\<close>.\<close>

definition replace_all :: "char \<Rightarrow> string \<Rightarrow> string \<Rightarrow> string" where
  "replace_all c r s = concat (map (\<lambda>x. if x = c then r else [x]) s)"

text \<open>\<open>lines.join(sep)\<close>.\<close>

fun js_join :: "string \<Rightarrow> string list \<Rightarrow> string" where
  "js_join sep [] = []"
| "js_join sep [x] = x"
| "js_join sep (x # y # ys) = x @ sep @ js_join sep (y # ys)"

text \<open>
  The regular expressions the trigger filter builds use three constructs: the anchor
  \<open>^\<close>, a character (possibly written with a backslash), and the assertion \<open>\b\<close>.
  \<open>parse_pattern\<close> reads a pattern source of that fragment and gives \<open>None\<close> on an
  unescaped syntax character or a dangling backslash.
\<close>

datatype atom = AStart | AChar char | AWordBoundary

definition syntax_char :: "char \<Rightarrow> bool" where
  "syntax_char c = (c \<in> set (''.*+?^${}()|[]'' @ [CHR 0x5C]))"

fun parse_pattern :: "string \<Rightarrow> atom list option" where
  "parse_pattern [] = Some []"
| "parse_pattern [c] =
     (if c = CHR ''^'' then Some [AStart]
      else if syntax_char c then None
      else Some [AChar c])"
| "parse_pattern (c # d # rest) =
     (if c = CHR 0x5C then
        (if d = CHR ''b'' then map_option (Cons AWordBoundary) (parse_pattern rest)
         else if syntax_char d then map_option (Cons (AChar d)) (parse_pattern rest)
         else None)
      else if c = CHR ''^'' then map_option (Cons AStart) (parse_pattern (d # rest))
      else if syntax_char c then None
      else map_option (Cons (AChar c)) (parse_pattern (d # rest)))"

text \<open>
  Matching with the \<open>i\<close> flag and without the \<open>u\<close> flag compares canonicalized code
  units: the upper-case form of the character when that is a single code unit and does not
  map a non-ASCII character into ASCII.  Below 256: the ASCII letters, the accented
  letters (E0 to FE without F7) that move down by 32, \<open>FF\<close> and \<open>B5\<close> whose upper-case
  forms lie above 255, and everything else unchanged.
\<close>

definition canonicalize :: "char \<Rightarrow> nat" where
  "canonicalize c =
     (let n = (of_char c :: nat) in
      if 97 \<le> n \<and> n \<le> 122 then n - 32
      else if 224 \<le> n \<and> n \<le> 254 \<and> n \<noteq> 247 then n - 32
      else if n = 255 then 376
      else if n = 181 then 924
      else n)"

text \<open>\<open>\w\<close> is \<open>[A-Za-z0-9_]\<close>; \<open>\b\<close> holds between a word character and a
  non-word character, the ends of the input counting as non-word.\<close>

definition word_char :: "char \<Rightarrow> bool" where
  "word_char c =
     (let n = (of_char c :: nat) in
      (48 \<le> n \<and> n \<le> 57) \<or> (65 \<le> n \<and> n \<le> 90) \<or> n = 95 \<or> (97 \<le> n \<and> n \<le> 122))"

definition word_at :: "string \<Rightarrow> int \<Rightarrow> bool" where
  "word_at s i = (0 \<le> i \<and> i < int (length s) \<and> word_char (s ! nat i))"

definition word_boundary :: "string \<Rightarrow> nat \<Rightarrow> bool" where
  "word_boundary s i = (word_at s (int i - 1) \<noteq> word_at s (int i))"

fun match_atoms :: "atom list \<Rightarrow> string \<Rightarrow> nat \<Rightarrow> bool" where
  "match_atoms [] s i = True"
| "match_atoms (AStart # as) s i = (i = 0 \<and> match_atoms as s i)"
| "match_atoms (AChar c # as) s i =
     (i < length s \<and> canonicalize (s ! i) = canonicalize c \<and> match_atoms as s (Suc i))"
| "match_atoms (AWordBoundary # as) s i = (word_boundary s i \<and> match_atoms as s i)"

text \<open>\<open>pattern.test(s)\<close> for a pattern without the \<open>g\<close> and \<open>y\<close> flags: a match may
  start at any index.\<close>

definition regex_test :: "atom list \<Rightarrow> string \<Rightarrow> bool" where
  "regex_test atoms s = list_ex (match_atoms atoms s) [0..<Suc (length s)]"

text \<open>\<open>name.replace(/[.*+?^${}()|[\]\\]/g, '\\$&')\<close>: a backslash before every syntax
  character.\<close>

definition escapeRegex :: "string \<Rightarrow> string" where
  "escapeRegex s = concat (map (\<lambda>c. if syntax_char c then [CHR 0x5C, c] else [c]) s)"

definition getAssistantNameFromTrigger :: "string \<Rightarrow> string" where
  "getAssistantNameFromTrigger trigger =
     (if trigger \<noteq> [] \<and> hd trigger = CHR ''@'' then tl trigger else trigger)"

text \<open>\<open>new RegExp(`^@${escaped}\\b`, 'i')\<close>; the constructor throws on a source it
  cannot read, which is \<open>None\<close> here.\<close>

definition buildTriggerPattern :: "string \<Rightarrow> atom list option" where
  "buildTriggerPattern trigger =
     (let name = (if trigger \<noteq> [] \<and> hd trigger = CHR ''@'' then tl trigger else trigger);
          escaped = escapeRegex name
      in parse_pattern (''^@'' @ escaped @ [CHR 0x5C, CHR ''b'']))"

text \<open>The pattern of the specification's words, \<open>^<trigger>\b\<close> on the trigger as it
  is registered, to compare with the one the code builds.\<close>

definition spec_trigger_pattern :: "string \<Rightarrow> atom list" where
  "spec_trigger_pattern trigger = AStart # map AChar trigger @ [AWordBoundary]"

section \<open>Intake: groups, messages, container runs\<close>

record RegisteredGroup =
  g_name :: string
  g_folder :: string
  g_trigger :: string
  g_added_at :: string
  g_containerConfig :: "string option"

record NewMessage =
  m_id :: string
  m_chat_jid :: string
  m_sender_name :: string
  m_content :: string
  m_timestamp :: string

definition MAIN_GROUP_FOLDER :: string where
  "MAIN_GROUP_FOLDER = ''main''"

datatype ContainerStatus = StatusOk | StatusError

record ContainerInput =
  ci_prompt :: string
  ci_sessionId :: "string option"
  ci_groupFolder :: string
  ci_chatJid :: string
  ci_isMain :: bool

record ContainerOutput =
  co_status :: ContainerStatus
  co_result :: "string option"
  co_newSessionId :: "string option"
  co_error :: "string option"

text \<open>What the router does to the outside, in order: presence updates, container runs,
  and transport sends with their outcome.\<close>

datatype intake_event =
    TypingSet string bool
  | AgentRun ContainerInput
  | MessageSent string string
  | SendFailed string string

text \<open>
  The module-level state of the router with the two files \<open>saveState\<close> and \<open>runAgent\<close>
  write (\<open>router_state.json\<close>, \<open>sessions.json\<close>).  \<open>registeredGroups\<close> keeps its keys
  in insertion order.
\<close>

record router =
  lastTimestamp :: string
  lastAgentTimestamp :: "string \<rightharpoonup> string"
  sessions :: "string \<rightharpoonup> string"
  registeredGroups :: "(string \<times> RegisteredGroup) list"
  sessions_file :: "string \<rightharpoonup> string"
  router_state_file :: "string \<times> (string \<rightharpoonup> string)"
  trace :: "intake_event list"

text \<open>
  The collaborators of the intake loop that are not among the sources: the message store
  (\<open>./db.js\<close>), the container runner and its snapshot writers
  (\<open>./container-runner.js\<close>), the knowledge-base lookup that may prepend a context,
  and the transport socket.  A call that can throw returns the error on the left;
  \<open>snapshot_error\<close> is the error thrown while \<open>runAgent\<close> reads the tasks and writes the
  two snapshots, if any; \<open>transport_send\<close> tells whether \<open>sock.sendMessage\<close> resolves.
\<close>

record intake_env =
  ASSISTANT_NAME :: string
  getMessagesSince :: "string \<Rightarrow> string \<Rightarrow> string \<Rightarrow> string + NewMessage list"
  snapshot_error :: "string \<Rightarrow> string option"
  kbContext :: "string option \<Rightarrow> string \<Rightarrow> string"
  runContainerAgent :: "RegisteredGroup \<Rightarrow> ContainerInput \<Rightarrow> string + ContainerOutput"
  transport_send :: "string \<Rightarrow> string \<Rightarrow> bool"

definition saveState :: "router \<Rightarrow> router" where
  "saveState st = st\<lparr>router_state_file := (lastTimestamp st, lastAgentTimestamp st),
                      sessions_file := sessions st\<rparr>"

text \<open>\<open>sendMessage\<close> catches the error of a failed send and logs it.\<close>

definition sendMessage :: "intake_env \<Rightarrow> string \<Rightarrow> string \<Rightarrow> router \<Rightarrow> router" where
  "sendMessage env jid text' st =
     (if transport_send env jid text'
      then st\<lparr>trace := trace st @ [MessageSent jid text']\<rparr>
      else st\<lparr>trace := trace st @ [SendFailed jid text']\<rparr>)"

definition setTyping :: "string \<Rightarrow> bool \<Rightarrow> router \<Rightarrow> router" where
  "setTyping jid isTyping st = st\<lparr>trace := trace st @ [TypingSet jid isTyping]\<rparr>"

text \<open>\<open>`Error: ${x}`\<close> for an optional string.\<close>

definition error_text :: "string option \<Rightarrow> string" where
  "error_text e = ''Error: '' @ (case e of None \<Rightarrow> ''undefined'' | Some m \<Rightarrow> m)"

text \<open>The request \<open>runAgent\<close> hands to the container: the prompt, with the
  knowledge-base context in front when there is one, and the session of the group.\<close>

definition agent_input ::
  "intake_env \<Rightarrow> RegisteredGroup \<Rightarrow> string \<Rightarrow> string \<Rightarrow> string option \<Rightarrow> router \<Rightarrow> ContainerInput" where
  "agent_input env grp prompt chatJid lastMessageContent st =
     (let context = kbContext env lastMessageContent (g_folder grp);
          enhancedPrompt =
            (if context \<noteq> []
             then ''<knowledge_base>'' @ [CHR 0x0A] @ context @ [CHR 0x0A]
                  @ ''</knowledge_base>'' @ [CHR 0x0A, CHR 0x0A] @ prompt
             else prompt)
      in \<lparr> ci_prompt = enhancedPrompt, ci_sessionId = sessions st (g_folder grp),
           ci_groupFolder = g_folder grp, ci_chatJid = chatJid,
           ci_isMain = (g_folder grp = MAIN_GROUP_FOLDER) \<rparr>)"

text \<open>
  \<open>runAgent\<close>: the thrown error if any, the reply, and the state.  The snapshots are
  written before the \<open>try\<close>; inside it the container is run, a truthy \<open>newSessionId\<close> is
  stored and saved first, and only then the status is looked at.  A container run that
  throws is caught and becomes the reply \<open>Error: ...\<close>.
\<close>

definition runAgent ::
  "intake_env \<Rightarrow> RegisteredGroup \<Rightarrow> string \<Rightarrow> string \<Rightarrow> string option \<Rightarrow> router
     \<Rightarrow> string option \<times> string option \<times> router" where
  "runAgent env grp prompt chatJid lastMessageContent st =
     (case snapshot_error env (g_folder grp) of
        Some err \<Rightarrow> (Some err, None, st)
      | None \<Rightarrow>
          let input = agent_input env grp prompt chatJid lastMessageContent st;
              st1 = st\<lparr>trace := trace st @ [AgentRun input]\<rparr>
          in case runContainerAgent env grp input of
               Inl err \<Rightarrow> (None, Some (''Error: '' @ err), st1)
             | Inr output \<Rightarrow>
                 let st2 = (if truthy (co_newSessionId output)
                            then st1\<lparr>sessions := (sessions st1)(g_folder grp \<mapsto> the (co_newSessionId output)),
                                     sessions_file := (sessions st1)(g_folder grp \<mapsto> the (co_newSessionId output))\<rparr>
                            else st1)
                 in if co_status output = StatusError
                    then (None, Some (error_text (co_error output)), st2)
                    else (None, co_result output, st2))"

definition escapeXml :: "string \<Rightarrow> string" where
  "escapeXml s =
     replace_all (CHR 0x22) ''&quot;''
       (replace_all (CHR ''>'') ''&gt;''
         (replace_all (CHR ''<'') ''&lt;''
           (replace_all (CHR ''&'') ''&amp;'' s)))"

definition message_line :: "NewMessage \<Rightarrow> string" where
  "message_line m =
     ''<message sender='' @ [CHR 0x22] @ escapeXml (m_sender_name m) @ [CHR 0x22]
       @ '' time='' @ [CHR 0x22] @ m_timestamp m @ [CHR 0x22] @ ''>''
       @ escapeXml (m_content m) @ ''</message>''"

definition build_prompt :: "NewMessage list \<Rightarrow> string" where
  "build_prompt missedMessages =
     ''<messages>'' @ [CHR 0x0A] @ js_join [CHR 0x0A] (map message_line missedMessages)
       @ [CHR 0x0A] @ ''</messages>''"

text \<open>The trigger gate of \<open>processMessage\<close>: the main group passes every message, any
  other grp only a trimmed content its pattern matches.\<close>

definition trigger_gate :: "RegisteredGroup \<Rightarrow> string \<Rightarrow> bool" where
  "trigger_gate grp content =
     (if g_folder grp = MAIN_GROUP_FOLDER then True
      else case buildTriggerPattern (g_trigger grp) of
             None \<Rightarrow> False
           | Some triggerPattern \<Rightarrow> regex_test triggerPattern content)"

text \<open>
  \<open>processMessage\<close>: the thrown error if any, and the state.  The URLs of the content
  are handed to the knowledge base without being awaited, which touches neither this state
  nor the control flow.
\<close>

definition processMessage :: "intake_env \<Rightarrow> NewMessage \<Rightarrow> router \<Rightarrow> string option \<times> router" where
  "processMessage env msg st =
     (case map_of (registeredGroups st) (m_chat_jid msg) of
        None \<Rightarrow> (None, st)
      | Some grp \<Rightarrow>
          let content = js_trim (m_content msg);
              isMainGroup = (g_folder grp = MAIN_GROUP_FOLDER)
          in if \<not> trigger_gate grp content then (None, st)
             else
               let sinceTimestamp = (case lastAgentTimestamp st (m_chat_jid msg) of
                                       None \<Rightarrow> [] | Some t \<Rightarrow> t);
                   groupAssistantName = getAssistantNameFromTrigger (g_trigger grp)
               in case getMessagesSince env (m_chat_jid msg) sinceTimestamp groupAssistantName of
                    Inl err \<Rightarrow> (Some err, st)
                  | Inr missedMessages \<Rightarrow>
                      let prompt = build_prompt missedMessages;
                          st1 = setTyping (m_chat_jid msg) True st;
                          lastContent = (if missedMessages = [] then None
                                         else Some (m_content (last missedMessages)))
                      in case runAgent env grp prompt (m_chat_jid msg) lastContent st1 of
                           (Some err, response, st2) \<Rightarrow> (Some err, st2)
                         | (None, response, st2) \<Rightarrow>
                             let st3 = setTyping (m_chat_jid msg) False st2
                             in if truthy response
                                then
                                  let st4 = st3\<lparr>lastAgentTimestamp :=
                                              (lastAgentTimestamp st3)(m_chat_jid msg \<mapsto> m_timestamp msg)\<rparr>;
                                      responsePrefix = (if isMainGroup then ASSISTANT_NAME env
                                                        else groupAssistantName)
                                  in (None, sendMessage env (m_chat_jid msg)
                                              (responsePrefix @ '': '' @ the response) st4)
                                else (None, st3))"

text \<open>Whether \<open>processMessage\<close> ran the container for this message.\<close>

definition agent_invoked :: "intake_env \<Rightarrow> NewMessage \<Rightarrow> router \<Rightarrow> bool" where
  "agent_invoked env msg st =
     (list_ex (\<lambda>e. case e of AgentRun i \<Rightarrow> True | _ \<Rightarrow> False)
        (drop (length (trace st)) (trace (snd (processMessage env msg st)))))"

text \<open>
  The body of the \<open>for\<close> loop of \<open>startMessageLoop\<close>: a message is processed, and only
  when that returns without throwing is \<open>lastTimestamp\<close> set to its timestamp and the
  state saved; a throw ends the batch.
\<close>

fun process_batch :: "intake_env \<Rightarrow> NewMessage list \<Rightarrow> router \<Rightarrow> router" where
  "process_batch env [] st = st"
| "process_batch env (msg # rest) st =
     (case processMessage env msg st of
        (Some err, st') \<Rightarrow> st'
      | (None, st') \<Rightarrow> process_batch env rest (saveState (st'\<lparr>lastTimestamp := m_timestamp msg\<rparr>)))"

text \<open>Modelled from the spec: \<open>getNewMessages(jids, since, botPrefixes)\<close> of the missing
  store module returns the stored messages strictly newer than \<open>since\<close>, of a registered
  chat, not sent under a bot prefix, in ascending order of timestamp.  Timestamps are ISO
  strings, compared as strings.\<close>

definition getNewMessages :: "NewMessage list \<Rightarrow> string list \<Rightarrow> string \<Rightarrow> string list \<Rightarrow> NewMessage list" where
  "getNewMessages store jids since botPrefixes =
     sort_key m_timestamp
       (filter (\<lambda>m. since < m_timestamp m \<and> m_chat_jid m \<in> set jids
                     \<and> m_sender_name m \<notin> set botPrefixes) store)"

text \<open>One turn of the \<open>while\<close> loop of \<open>startMessageLoop\<close> over a message store.\<close>

definition poll :: "intake_env \<Rightarrow> NewMessage list \<Rightarrow> router \<Rightarrow> router" where
  "poll env store st =
     (let jids = map fst (registeredGroups st);
          botPrefixes = map (\<lambda>(jid, g). getAssistantNameFromTrigger (g_trigger g)) (registeredGroups st)
      in process_batch env (getNewMessages store jids (lastTimestamp st) botPrefixes) st)"

text \<open>The messages of a batch that the loop handled: those before the first throw.\<close>

fun handled :: "intake_env \<Rightarrow> NewMessage list \<Rightarrow> router \<Rightarrow> NewMessage list" where
  "handled env [] st = []"
| "handled env (msg # rest) st =
     (case processMessage env msg st of
        (Some err, st') \<Rightarrow> []
      | (None, st') \<Rightarrow> msg # handled env rest (saveState (st'\<lparr>lastTimestamp := m_timestamp msg\<rparr>)))"

text \<open>Whether \<open>processMessage\<close> throws on a message: the thrown error, if any.\<close>

definition throws :: "intake_env \<Rightarrow> NewMessage \<Rightarrow> router \<Rightarrow> string option" where
  "throws env msg st = fst (processMessage env msg st)"

text \<open>
  What the pattern of \<open>buildTriggerPattern\<close> asks of a content: it begins, up to case,
  with \<open>@\<close> and the name of the trigger (the trigger without its leading \<open>@\<close>), and a
  word boundary follows.
\<close>

definition starts_with_trigger :: "string \<Rightarrow> string \<Rightarrow> bool" where
  "starts_with_trigger trigger content =
     (let name = getAssistantNameFromTrigger trigger;
          n = Suc (length name)
      in n \<le> length content
         \<and> map canonicalize (take n content) = map canonicalize (CHR ''@'' # name)
         \<and> word_boundary content n)"

text \<open>A router with four registered groups, and collaborators whose container outcome and
  transport outcome are chosen per example; the store cannot be read for the chat
  \<open>busy@g.us\<close>.\<close>

definition ex_group :: "string \<Rightarrow> string \<Rightarrow> string \<Rightarrow> RegisteredGroup" where
  "ex_group n f t = \<lparr> g_name = n, g_folder = f, g_trigger = t,
       g_added_at = ''2026-01-01T00:00:00Z'', g_containerConfig = None \<rparr>"

definition ex_router :: router where
  "ex_router = \<lparr> lastTimestamp = ''2026-02-01T09:59:59Z'',
       lastAgentTimestamp = Map.empty,
       sessions = [''family'' \<mapsto> ''sess-1''],
       registeredGroups = [(''main@g.us'', ex_group ''Main'' ''main'' ''@Alfred''),
                           (''fam@g.us'', ex_group ''Family'' ''family'' ''@Bhavi''),
                           (''work@g.us'', ex_group ''Work'' ''work'' ''Alfred''),
                           (''busy@g.us'', ex_group ''Busy'' ''busy'' ''@Bhavi'')],
       sessions_file = [''family'' \<mapsto> ''sess-1''],
       router_state_file = (''2026-02-01T09:59:59Z'', Map.empty),
       trace = [] \<rparr>"

definition ex_message :: "string \<Rightarrow> string \<Rightarrow> string \<Rightarrow> string \<Rightarrow> NewMessage" where
  "ex_message i jid c ts = \<lparr> m_id = i, m_chat_jid = jid, m_sender_name = ''Neeti'',
       m_content = c, m_timestamp = ts \<rparr>"

definition ex_env :: "string + ContainerOutput \<Rightarrow> bool \<Rightarrow> intake_env" where
  "ex_env outcome delivered =
     \<lparr> ASSISTANT_NAME = ''Alfred'',
       getMessagesSince = (\<lambda>jid since name. if jid = ''busy@g.us'' then Inl ''SQLITE_BUSY'' else Inr []),
       snapshot_error = (\<lambda>folder. None),
       kbContext = (\<lambda>c folder. []),
       runContainerAgent = (\<lambda>g i. outcome),
       transport_send = (\<lambda>jid t. delivered) \<rparr>"

definition ex_output :: "ContainerStatus \<Rightarrow> string option \<Rightarrow> string option \<Rightarrow> string option \<Rightarrow> ContainerOutput" where
  "ex_output s r n e = \<lparr> co_status = s, co_result = r, co_newSessionId = n, co_error = e \<rparr>"

definition ex_jids :: "string list" where
  "ex_jids = [''main@g.us'', ''fam@g.us'', ''work@g.us'', ''busy@g.us'']"

definition ex_bots :: "string list" where
  "ex_bots = [''Alfred'', ''Bhavi'', ''Alfred'', ''Bhavi'']"

definition ex_store :: "NewMessage list" where
  "ex_store = [ex_message ''m1'' ''fam@g.us'' ''@Bhavi hello'' ''2026-02-01T10:00:01Z'',
               ex_message ''m2'' ''busy@g.us'' ''@Bhavi are you there'' ''2026-02-01T10:00:02Z'',
               ex_message ''m3'' ''fam@g.us'' ''@Bhavi again'' ''2026-02-01T10:00:03Z'']"

section \<open>IPC broker: payloads, tasks, state\<close>

text \<open>
  A number of a payload is held as the text that the conversion of a number to a string
  gives for it, such as \<open>10\<close>, \<open>1.5\<close> or \<open>1e+21\<close>.  This text determines the
  number, but for the sign of zero, and the handlers use a number through its truth value
  and through this text only, which a template string splices into a command.  A number is
  falsy when it is zero or \<open>NaN\<close>.
\<close>

datatype js_number = JsNumber string

fun number_text :: "js_number \<Rightarrow> string" where
  "number_text (JsNumber t) = t"

definition number_truthy :: "js_number option \<Rightarrow> bool" where
  "number_truthy n =
     (case n of None \<Rightarrow> False
      | Some v \<Rightarrow> number_text v \<noteq> ''0'' \<and> number_text v \<noteq> ''NaN'')"

text \<open>
  The parsed JSON of an IPC file, with the fields the handlers below read, typed as
  \<open>processTaskIpc\<close> declares them.  A field the file does not have is \<open>None\<close>.
\<close>

record IpcPayload =
  p_type :: "string option"
  p_chatJid :: "string option"
  p_text :: "string option"
  p_taskId :: "string option"
  p_prompt :: "string option"
  p_schedule_type :: "string option"
  p_schedule_value :: "string option"
  p_context_mode :: "string option"
  p_groupFolder :: "string option"
  p_jid :: "string option"
  p_name :: "string option"
  p_folder :: "string option"
  p_trigger :: "string option"
  p_containerConfig :: "string option"
  p_sourceId :: "string option"
  p_repo :: "string option"
  p_state :: "string option"
  p_limit :: "js_number option"
  p_task :: "string option"
  p_taskType :: "string option"
  p_priority :: "js_number option"

record Task =
  t_id :: string
  t_group_folder :: string
  t_chat_jid :: string
  t_prompt :: string
  t_schedule_type :: string
  t_schedule_value :: string
  t_context_mode :: string
  t_next_run :: "string option"
  t_status :: string
  t_created_at :: string

datatype log_level = LogInfo | LogWarn | LogError

text \<open>What the handlers do to the outside: \<open>sendMessage\<close> calls, log lines, and the
  group metadata sync with its snapshot.\<close>

datatype ipc_event =
    Sent string string
  | Logged log_level string
  | GroupsRefreshed string
  | GroupFolderCreated string

record ipc_world =
  w_registeredGroups :: "(string \<times> RegisteredGroup) list"
  w_tasks :: "Task list"
  w_kb :: kb_store
  w_events :: "ipc_event list"

text \<open>
  The collaborators of the handlers: the cron parser (\<open>None\<close> when parsing the
  expression or computing its next date throws), the clock (\<open>Date.now()\<close> in
  milliseconds, and the ISO string of the current date), the ISO string of a time value
  in the range of \<open>Date\<close>, the parser of \<open>Date\<close> (\<open>None\<close> for an invalid date), the id
  generator, the error a task-table operation throws (if the store fails), and the
  content of the projects file that \<open>getSugarProjects\<close> reads, and the handlers of
  the tool cases that run external programs and the knowledge-base pipeline (\<open>sugar_*\<close>
  but for \<open>sugar_list_projects\<close>, \<open>github_*\<close>, \<open>kb_list\<close>, \<open>kb_search\<close>,
  \<open>kb_update\<close>, \<open>kb_add\<close>): their effect on the state is a parameter, so what is
  proved holds whatever they do.
\<close>

record SugarProject =
  sp_name :: string
  sp_path :: string
  sp_repo :: "string option"
  sp_default :: "bool option"

record ipc_env =
  ipc_ASSISTANT_NAME :: string
  SUGAR_PROJECTS_FILE :: string
  sugar_projects :: "(string \<times> SugarProject) list"
  cron_next :: "string \<Rightarrow> string option"
  date_now :: nat
  iso_string :: "int \<Rightarrow> string"
  parse_date :: "string \<Rightarrow> string option"
  new_task_id :: string
  ipc_now :: string
  db_failure :: "string option"
  tool_handler :: "string \<Rightarrow> IpcPayload \<Rightarrow> string \<Rightarrow> bool \<Rightarrow> ipc_world \<Rightarrow> string option \<times> ipc_world"

definition log_event :: "log_level \<Rightarrow> string \<Rightarrow> ipc_world \<Rightarrow> ipc_world" where
  "log_event lvl msg w = w\<lparr>w_events := w_events w @ [Logged lvl msg]\<rparr>"

definition ipc_sendMessage :: "string \<Rightarrow> string \<Rightarrow> ipc_world \<Rightarrow> ipc_world" where
  "ipc_sendMessage jid text' w = w\<lparr>w_events := w_events w @ [Sent jid text']\<rparr>"

text \<open>\<open>parseInt(s, 10)\<close>: leading white space, an optional sign, then the longest run of
  decimal digits; \<open>None\<close> is \<open>NaN\<close>.\<close>

definition digit_val :: "char \<Rightarrow> nat" where
  "digit_val c = (of_char c :: nat) - 48"

definition is_digit :: "char \<Rightarrow> bool" where
  "is_digit c = (48 \<le> (of_char c :: nat) \<and> (of_char c :: nat) \<le> 57)"

definition digits_value :: "string \<Rightarrow> nat" where
  "digits_value ds = foldl (\<lambda>acc c. 10 * acc + digit_val c) 0 ds"

definition js_parseInt :: "string \<Rightarrow> int option" where
  "js_parseInt s =
     (let t = dropWhile js_whitespace s;
          neg = (t \<noteq> [] \<and> hd t = CHR ''-'');
          u = (if t \<noteq> [] \<and> (hd t = CHR ''-'' \<or> hd t = CHR ''+'') then tl t else t);
          ds = takeWhile is_digit u
      in if ds = [] then None
         else Some (if neg then - int (digits_value ds) else int (digits_value ds)))"

text \<open>Modelled from the spec: the task CRUD of the missing store module
  (\<open>getTaskById\<close>, \<open>updateTask\<close>, \<open>deleteTask\<close>, \<open>createTask\<close> of \<open>./db.js\<close>).\<close>

definition getTaskById :: "ipc_world \<Rightarrow> string \<Rightarrow> Task option" where
  "getTaskById w ident = find (\<lambda>t. t_id t = ident) (w_tasks w)"

definition updateTask_status :: "string \<Rightarrow> string \<Rightarrow> ipc_world \<Rightarrow> ipc_world" where
  "updateTask_status ident status w =
     w\<lparr>w_tasks := map (\<lambda>t. if t_id t = ident then t\<lparr>t_status := status\<rparr> else t) (w_tasks w)\<rparr>"

definition deleteTask :: "string \<Rightarrow> ipc_world \<Rightarrow> ipc_world" where
  "deleteTask ident w = w\<lparr>w_tasks := filter (\<lambda>t. t_id t \<noteq> ident) (w_tasks w)\<rparr>"

definition createTask :: "Task \<Rightarrow> ipc_world \<Rightarrow> ipc_world" where
  "createTask t w = w\<lparr>w_tasks := w_tasks w @ [t]\<rparr>"

text \<open>\<open>registerGroup\<close>: the entry is set under its jid, the file saved, and the group
  folder created.\<close>

definition registerGroup :: "string \<Rightarrow> RegisteredGroup \<Rightarrow> ipc_world \<Rightarrow> ipc_world" where
  "registerGroup jid grp w =
     log_event LogInfo ''Group registered''
       (w\<lparr>w_registeredGroups := AList.update jid grp (w_registeredGroups w),
          w_events := w_events w @ [GroupFolderCreated (g_folder grp)]\<rparr>)"

text \<open>\<open>deleteSource(sourceId)\<close> of the ingestion module (imported by the broker as
  \<open>deleteKBSource\<close>): it hands the id to the storage module and reports success.\<close>

definition deleteSource :: "string \<Rightarrow> kb_store \<Rightarrow> bool \<times> kb_store" where
  "deleteSource sourceId db = (True, storage_deleteSource sourceId db)"

text \<open>The three task mutations share their shape: the task is looked up, and changed
  only if it exists and the caller is main or the task is of the caller's group.\<close>

definition task_mutation ::
  "ipc_env \<Rightarrow> IpcPayload \<Rightarrow> string \<Rightarrow> bool \<Rightarrow> (string \<Rightarrow> ipc_world \<Rightarrow> ipc_world) \<Rightarrow> string \<Rightarrow> string
     \<Rightarrow> ipc_world \<Rightarrow> string option \<times> ipc_world" where
  "task_mutation env data sourceGroup isMain change done denied w =
     (if truthy (p_taskId data) then
        (case db_failure env of
           Some err \<Rightarrow> (Some err, w)
         | None \<Rightarrow>
             (case getTaskById w (the (p_taskId data)) of
                None \<Rightarrow> (None, log_event LogWarn denied w)
              | Some task \<Rightarrow>
                  if isMain \<or> t_group_folder task = sourceGroup
                  then (None, log_event LogInfo done (change (the (p_taskId data)) w))
                  else (None, log_event LogWarn denied w)))
      else (None, w))"

text \<open>
  \<open>new Date(t).toISOString()\<close>: a time value beyond 8.64e15 milliseconds on either side
  of the epoch gives an invalid date, for which \<open>toISOString\<close> throws a \<open>RangeError\<close>.
\<close>

definition MAX_TIME_VALUE :: int where
  "MAX_TIME_VALUE = 8640000000000000"

definition date_toISOString :: "ipc_env \<Rightarrow> int \<Rightarrow> string + string" where
  "date_toISOString env t =
     (if - MAX_TIME_VALUE \<le> t \<and> t \<le> MAX_TIME_VALUE then Inr (iso_string env t)
      else Inl ''Invalid time value'')"

text \<open>
  The next run of a new task by its schedule type: the warning that ends the request, the
  error thrown, or the next run; a schedule type that is none of the three gives a task
  without a next run.  The cron case runs inside its own \<open>try\<close>, so whatever it throws
  ends in the warning.  The interval case is not guarded: beyond the range of \<open>Date\<close> it
  throws.  The number \<open>parseInt\<close> returns is a double; it is the integer read from the
  digits whenever that is below \<open>2^53\<close>, and at least \<open>2^53\<close> otherwise, so with the
  clock not negative the sum is within the range of \<open>Date\<close> exactly when the sum of the
  integers is, and is exact there.
\<close>

datatype next_run = Refused string | Raised string | NextRun "string option"

definition compute_next_run :: "ipc_env \<Rightarrow> string \<Rightarrow> string \<Rightarrow> next_run" where
  "compute_next_run env scheduleType scheduleValue =
     (if scheduleType = ''cron'' then
        (case cron_next env scheduleValue of
           None \<Rightarrow> Refused ''Invalid cron expression''
         | Some t \<Rightarrow> NextRun (Some t))
      else if scheduleType = ''interval'' then
        (case js_parseInt scheduleValue of
           None \<Rightarrow> Refused ''Invalid interval''
         | Some ms \<Rightarrow>
             if ms \<le> 0 then Refused ''Invalid interval''
             else (case date_toISOString env (int (date_now env) + ms) of
                     Inl err \<Rightarrow> Raised err
                   | Inr t \<Rightarrow> NextRun (Some t)))
      else if scheduleType = ''once'' then
        (case parse_date env scheduleValue of
           None \<Rightarrow> Refused ''Invalid timestamp''
         | Some t \<Rightarrow> NextRun (Some t))
      else NextRun None)"

definition new_task :: "ipc_env \<Rightarrow> IpcPayload \<Rightarrow> string \<Rightarrow> string \<Rightarrow> string option \<Rightarrow> Task" where
  "new_task env data targetGroup targetJid next_run =
     \<lparr> t_id = new_task_id env, t_group_folder = targetGroup,
       t_chat_jid = targetJid, t_prompt = the (p_prompt data),
       t_schedule_type = the (p_schedule_type data),
       t_schedule_value = the (p_schedule_value data),
       t_context_mode =
         (if p_context_mode data = Some ''group'' \<or> p_context_mode data = Some ''isolated''
          then the (p_context_mode data) else ''isolated''),
       t_next_run = next_run, t_status = ''active'',
       t_created_at = ipc_now env \<rparr>"

text \<open>The \<open>schedule_task\<close> case: a caller other than main may name its own group only,
  and the chat of the task is the registered chat of the target group, not the one of the
  payload.\<close>

definition schedule_task ::
  "ipc_env \<Rightarrow> IpcPayload \<Rightarrow> string \<Rightarrow> bool \<Rightarrow> ipc_world \<Rightarrow> string option \<times> ipc_world" where
  "schedule_task env data sourceGroup isMain w =
     (if truthy (p_prompt data) \<and> truthy (p_schedule_type data)
         \<and> truthy (p_schedule_value data) \<and> truthy (p_groupFolder data)
      then
        let targetGroup = the (p_groupFolder data) in
        if \<not> isMain \<and> targetGroup \<noteq> sourceGroup
        then (None, log_event LogWarn ''Unauthorized schedule_task attempt blocked'' w)
        else
          (case find (\<lambda>(jid, g). g_folder g = targetGroup) (w_registeredGroups w) of
             None \<Rightarrow> (None, log_event LogWarn ''Cannot schedule task: target group not registered'' w)
           | Some (targetJid, g) \<Rightarrow>
               if targetJid = []
               then (None, log_event LogWarn ''Cannot schedule task: target group not registered'' w)
               else
                 (case compute_next_run env (the (p_schedule_type data)) (the (p_schedule_value data)) of
                    Refused warning \<Rightarrow> (None, log_event LogWarn warning w)
                  | Raised err \<Rightarrow> (Some err, w)
                  | NextRun next_run \<Rightarrow>
                      (case db_failure env of
                         Some err \<Rightarrow> (Some err, w)
                       | None \<Rightarrow>
                           (None, log_event LogInfo ''Task created via IPC''
                              (createTask (new_task env data targetGroup targetJid next_run) w)))))
      else (None, w))"

text \<open>The \<open>kb_delete\<close> case: the target group named by the payload (or the caller's) is
  checked against the caller, and then the source with the given id is deleted.\<close>

definition kb_delete ::
  "ipc_env \<Rightarrow> IpcPayload \<Rightarrow> string \<Rightarrow> bool \<Rightarrow> ipc_world \<Rightarrow> string option \<times> ipc_world" where
  "kb_delete env data sourceGroup isMain w =
     (let targetGroup = (if truthy (p_groupFolder data) then the (p_groupFolder data) else sourceGroup)
      in if \<not> isMain \<and> targetGroup \<noteq> sourceGroup
         then (None, log_event LogWarn ''Unauthorized kb_delete attempt blocked'' w)
         else if \<not> truthy (p_sourceId data)
         then (None, log_event LogWarn ''Invalid kb_delete request - missing sourceId'' w)
         else
           let sourceId = the (p_sourceId data);
               (success, kb') = deleteSource sourceId (w_kb w);
               w1 = w\<lparr>w_kb := kb'\<rparr>
           in if truthy (p_chatJid data)
              then (None, ipc_sendMessage (the (p_chatJid data))
                            (ipc_ASSISTANT_NAME env @
                               (if success then '': KB entry deleted: '' @ sourceId
                                else '': Delete failed - undefined'')) w1)
              else (None, w1))"

text \<open>The \<open>sugar_list_projects\<close> case: the configured projects are listed to the
  chat the payload names.\<close>

definition project_line :: "SugarProject \<Rightarrow> string" where
  "project_line p =
     ''- '' @ sp_name p @ (if sp_default p = Some True then '' (default)'' else [])
       @ '': '' @ sp_path p
       @ (if truthy (sp_repo p) then '' ['' @ the (sp_repo p) @ '']'' else [])"

definition sugar_list_projects ::
  "ipc_env \<Rightarrow> IpcPayload \<Rightarrow> ipc_world \<Rightarrow> string option \<times> ipc_world" where
  "sugar_list_projects env data w =
     (let projectList = js_join [CHR 0x0A] (map (\<lambda>(key, p). project_line p) (sugar_projects env))
      in if truthy (p_chatJid data)
         then (if sugar_projects env = []
               then (None, ipc_sendMessage (the (p_chatJid data))
                       (ipc_ASSISTANT_NAME env @ '': No Sugar projects configured. Add projects to ''
                          @ SUGAR_PROJECTS_FILE env) w)
               else (None, ipc_sendMessage (the (p_chatJid data))
                       (ipc_ASSISTANT_NAME env @ '': Configured projects:'' @ [CHR 0x0A] @ projectList) w))
         else (None, w))"

text \<open>The case labels of \<open>processTaskIpc\<close> that run tools; their bodies are the
  parameter \<open>tool_handler\<close>.\<close>

definition tool_types :: "string list" where
  "tool_types =
     [''sugar_add'', ''sugar_list'', ''sugar_status'', ''sugar_run'', ''sugar_stop'',
      ''sugar_add_project'', ''sugar_init'',
      ''github_list_issues'', ''github_create_task_from_issue'', ''github_create_pr'',
      ''github_pr_status'', ''kb_list'', ''kb_search'', ''kb_update'', ''kb_add'']"

definition known_types :: "string list" where
  "known_types =
     [''schedule_task'', ''pause_task'', ''resume_task'', ''cancel_task'', ''refresh_groups'',
      ''register_group'', ''sugar_list_projects'', ''kb_delete''] @ tool_types"

text \<open>\<open>processTaskIpc\<close>: the thrown error if any, and the state.\<close>

definition processTaskIpc ::
  "ipc_env \<Rightarrow> IpcPayload \<Rightarrow> string \<Rightarrow> bool \<Rightarrow> ipc_world \<Rightarrow> string option \<times> ipc_world" where
  "processTaskIpc env data sourceGroup isMain w =
     (let ty = (case p_type data of None \<Rightarrow> [] | Some t \<Rightarrow> t) in
      if p_type data = None then (None, log_event LogWarn ''Unknown IPC task type'' w)
      else if ty = ''schedule_task'' then schedule_task env data sourceGroup isMain w
      else if ty = ''pause_task'' then
        task_mutation env data sourceGroup isMain (\<lambda>i. updateTask_status i ''paused'')
          ''Task paused via IPC'' ''Unauthorized task pause attempt'' w
      else if ty = ''resume_task'' then
        task_mutation env data sourceGroup isMain (\<lambda>i. updateTask_status i ''active'')
          ''Task resumed via IPC'' ''Unauthorized task resume attempt'' w
      else if ty = ''cancel_task'' then
        task_mutation env data sourceGroup isMain deleteTask
          ''Task cancelled via IPC'' ''Unauthorized task cancel attempt'' w
      else if ty = ''refresh_groups'' then
        (if isMain
         then (None, w\<lparr>w_events := w_events w
                          @ [Logged LogInfo ''Group metadata refresh requested via IPC'',
                             GroupsRefreshed sourceGroup]\<rparr>)
         else (None, log_event LogWarn ''Unauthorized refresh_groups attempt blocked'' w))
      else if ty = ''register_group'' then
        (if \<not> isMain
         then (None, log_event LogWarn ''Unauthorized register_group attempt blocked'' w)
         else if truthy (p_jid data) \<and> truthy (p_name data) \<and> truthy (p_folder data)
                 \<and> truthy (p_trigger data)
         then (None, registerGroup (the (p_jid data))
                       \<lparr> g_name = the (p_name data), g_folder = the (p_folder data),
                         g_trigger = the (p_trigger data), g_added_at = ipc_now env,
                         g_containerConfig = p_containerConfig data \<rparr> w)
         else (None, log_event LogWarn ''Invalid register_group request - missing required fields'' w))
      else if ty = ''sugar_list_projects'' then sugar_list_projects env data w
      else if ty = ''kb_delete'' then kb_delete env data sourceGroup isMain w
      else if ty \<in> set tool_types then tool_handler env ty data sourceGroup isMain w
      else (None, log_event LogWarn ''Unknown IPC task type'' w))"

text \<open>The handling of a payload read from a \<open>messages\<close> directory.\<close>

definition handle_message ::
  "ipc_env \<Rightarrow> IpcPayload \<Rightarrow> string \<Rightarrow> bool \<Rightarrow> ipc_world \<Rightarrow> ipc_world" where
  "handle_message env data sourceGroup isMain w =
     (if p_type data = Some ''message'' \<and> truthy (p_chatJid data) \<and> truthy (p_text data)
      then
        let chatJid = the (p_chatJid data);
            targetGroup = map_of (w_registeredGroups w) chatJid
        in if isMain \<or> (targetGroup \<noteq> None \<and> g_folder (the targetGroup) = sourceGroup)
           then log_event LogInfo ''IPC message sent''
                  (ipc_sendMessage chatJid (ipc_ASSISTANT_NAME env @ '': '' @ the (p_text data)) w)
           else log_event LogWarn ''Unauthorized IPC message attempt blocked'' w
      else w)"

section \<open>IPC broker: files\<close>

text \<open>
  The files under \<open>data/ipc\<close>: \<open><group>/messages/<name>\<close>, \<open><group>/tasks/<name>\<close>
  and \<open>errors/<name>\<close>.  A file makes \<open>JSON.parse\<close> throw, or it parses to \<open>null\<close>,
  or it parses to another value, which is read as a payload: a value that is not an object
  has none of the fields.  The tree is a list of paths with their files, each path once.
\<close>

datatype ipc_path = MessagesFile string string | TasksFile string string | ErrorsFile string

datatype file_body = Parsed IpcPayload | ParsedNull | Malformed

type_synonym ipc_fs = "(ipc_path \<times> file_body) list"

definition unlink :: "ipc_path \<Rightarrow> ipc_fs \<Rightarrow> ipc_fs" where
  "unlink p fs = filter (\<lambda>(q, b). q \<noteq> p) fs"

definition rename :: "ipc_path \<Rightarrow> ipc_path \<Rightarrow> ipc_fs \<Rightarrow> ipc_fs" where
  "rename p q fs =
     (case map_of fs p of
        None \<Rightarrow> fs
      | Some b \<Rightarrow> AList.update q b (unlink p fs))"

definition is_json_name :: "string \<Rightarrow> bool" where
  "is_json_name n = (5 \<le> length n \<and> drop (length n - 5) n = ''.json'')"

definition error_name :: "string \<Rightarrow> string \<Rightarrow> string" where
  "error_name sourceGroup file = sourceGroup @ ''-'' @ file"

text \<open>One round of the loop over the message files of a source group: parse, handle,
  unlink; on a throw, log and move the file to \<open>errors/<sourceGroup>-<file>\<close>.  Reading
  \<open>data.type\<close> throws when the file parsed to \<open>null\<close>.\<close>

definition process_message_file ::
  "ipc_env \<Rightarrow> string \<Rightarrow> string \<Rightarrow> ipc_fs \<times> ipc_world \<Rightarrow> ipc_fs \<times> ipc_world" where
  "process_message_file env sourceGroup file state =
     (let fs = fst state; w = snd state;
          filePath = MessagesFile sourceGroup file;
          isMain = (sourceGroup = MAIN_GROUP_FOLDER)
      in case map_of fs filePath of
           Some (Parsed data) \<Rightarrow>
             (unlink filePath fs, handle_message env data sourceGroup isMain w)
         | Some ParsedNull \<Rightarrow>
             (rename filePath (ErrorsFile (error_name sourceGroup file)) fs,
              log_event LogError ''Error processing IPC message'' w)
         | _ \<Rightarrow>
             (rename filePath (ErrorsFile (error_name sourceGroup file)) fs,
              log_event LogError ''Error processing IPC message'' w))"

text \<open>One round of the loop over the task files of a source group; \<open>processTaskIpc\<close>
  throws at its \<open>switch (data.type)\<close> when the file parsed to \<open>null\<close>.\<close>

definition process_task_file ::
  "ipc_env \<Rightarrow> string \<Rightarrow> string \<Rightarrow> ipc_fs \<times> ipc_world \<Rightarrow> ipc_fs \<times> ipc_world" where
  "process_task_file env sourceGroup file state =
     (let fs = fst state; w = snd state;
          filePath = TasksFile sourceGroup file;
          isMain = (sourceGroup = MAIN_GROUP_FOLDER)
      in case map_of fs filePath of
           Some (Parsed data) \<Rightarrow>
             (case processTaskIpc env data sourceGroup isMain w of
                (None, w') \<Rightarrow> (unlink filePath fs, w')
              | (Some err, w') \<Rightarrow>
                  (rename filePath (ErrorsFile (error_name sourceGroup file)) fs,
                   log_event LogError ''Error processing IPC task'' w'))
         | Some ParsedNull \<Rightarrow>
             (rename filePath (ErrorsFile (error_name sourceGroup file)) fs,
              log_event LogError ''Error processing IPC task'' w)
         | _ \<Rightarrow>
             (rename filePath (ErrorsFile (error_name sourceGroup file)) fs,
              log_event LogError ''Error processing IPC task'' w))"

text \<open>The directory listings of a source group, and the source groups themselves: every
  directory under \<open>data/ipc\<close> other than \<open>errors\<close>.\<close>

definition message_files :: "string \<Rightarrow> ipc_fs \<Rightarrow> string list" where
  "message_files sourceGroup fs =
     concat (map (\<lambda>(p, b). case p of MessagesFile g n \<Rightarrow> if g = sourceGroup \<and> is_json_name n then [n] else []
                                  | _ \<Rightarrow> []) fs)"

definition task_files :: "string \<Rightarrow> ipc_fs \<Rightarrow> string list" where
  "task_files sourceGroup fs =
     concat (map (\<lambda>(p, b). case p of TasksFile g n \<Rightarrow> if g = sourceGroup \<and> is_json_name n then [n] else []
                                  | _ \<Rightarrow> []) fs)"

definition source_groups :: "ipc_fs \<Rightarrow> string list" where
  "source_groups fs =
     filter (\<lambda>f. f \<noteq> ''errors'')
       (remdups (concat (map (\<lambda>(p, b). case p of MessagesFile g n \<Rightarrow> [g] | TasksFile g n \<Rightarrow> [g]
                                              | ErrorsFile n \<Rightarrow> []) fs)))"

definition process_group :: "ipc_env \<Rightarrow> string \<Rightarrow> ipc_fs \<times> ipc_world \<Rightarrow> ipc_fs \<times> ipc_world" where
  "process_group env sourceGroup state =
     (let s1 = fold (process_message_file env sourceGroup) (message_files sourceGroup (fst state)) state
      in fold (process_task_file env sourceGroup) (task_files sourceGroup (fst s1)) s1)"

definition processIpcFiles :: "ipc_env \<Rightarrow> ipc_fs \<times> ipc_world \<Rightarrow> ipc_fs \<times> ipc_world" where
  "processIpcFiles env state = fold (process_group env) (source_groups (fst state)) state"

section \<open>External commands\<close>

text \<open>
  How a handler starts an external program: \<open>execSync\<close> and \<open>exec\<close> hand one command
  line to the shell; \<open>execFile\<close> hands a program and its argument vector to the system
  without a shell.  The number is the timeout in milliseconds.
\<close>

datatype invocation = ShellCommand string nat | ArgvCommand string "string list" nat

definition SUGAR_PATH :: string where
  "SUGAR_PATH = ''/Users/neetidhingra/Github/bhavidhingraa/sugar''"

definition sugarCmd :: "string \<Rightarrow> string" where
  "sugarCmd args = ''PYTHONPATH='' @ SUGAR_PATH @ '':$PYTHONPATH python -m sugar.main '' @ args"

text \<open>\<open>execSyncCmd(command, {timeout})\<close>: the command with the redirection of its error
  stream appended is run by \<open>execSync\<close>, that is by the shell.\<close>

definition execSyncCmd :: "string \<Rightarrow> string \<Rightarrow> nat option \<Rightarrow> invocation" where
  "execSyncCmd tmpFile command timeout =
     ShellCommand (command @ '' 2>'' @ tmpFile)
       (case timeout of None \<Rightarrow> 30000 | Some t \<Rightarrow> if t = 0 then 30000 else t)"

text \<open>The command of the \<open>github_list_issues\<close> case.\<close>

definition github_list_issues_cmd :: "IpcPayload \<Rightarrow> string" where
  "github_list_issues_cmd data =
     ''gh issue list --repo '' @ the (p_repo data) @ '' --json number,title,state,labels''
       @ (if truthy (p_state data) then '' --state '' @ the (p_state data) else [])
       @ (if number_truthy (p_limit data) then '' -L '' @ number_text (the (p_limit data)) else [])"

definition github_list_issues_invocation :: "string \<Rightarrow> IpcPayload \<Rightarrow> invocation" where
  "github_list_issues_invocation tmpFile data =
     execSyncCmd tmpFile (github_list_issues_cmd data) (Some 30000)"

text \<open>The command of the \<open>sugar_add\<close> case, for a project at \<open>path\<close>: the task is
  escaped (double quote, line feed, dollar, backquote) and spliced between double
  quotes.\<close>

definition safeTask :: "string \<Rightarrow> string" where
  "safeTask task =
     replace_all (CHR 0x60) [CHR 0x5C, CHR 0x60]
       (replace_all (CHR ''$'') [CHR 0x5C, CHR ''$'']
         (replace_all (CHR 0x0A) [CHR 0x5C, CHR ''n'']
           (replace_all (CHR 0x22) [CHR 0x5C, CHR 0x22] task)))"

definition safeType :: "string option \<Rightarrow> string option" where
  "safeType taskType =
     (if truthy taskType then
        Some (case map_of [(''chore'', ''feature''), (''bug'', ''bug_fix''), (''fix'', ''bug_fix''),
                           (''enhancement'', ''feature''), (''docs'', ''documentation''),
                           (''doc'', ''documentation'')] (the taskType) of
                None \<Rightarrow> the taskType
              | Some m \<Rightarrow> m)
      else None)"

definition sugar_add_cmd :: "string \<Rightarrow> IpcPayload \<Rightarrow> string" where
  "sugar_add_cmd path data =
     ''cd '' @ [CHR 0x22] @ path @ [CHR 0x22] @ '' && ''
       @ sugarCmd (''add '' @ [CHR 0x22] @ safeTask (the (p_task data)) @ [CHR 0x22])
       @ (case safeType (p_taskType data) of
            None \<Rightarrow> []
          | Some t \<Rightarrow> if t \<in> set [''bug_fix'', ''feature'', ''test'', ''refactor'', ''documentation'']
                      then '' --type '' @ t else [])
       @ (if number_truthy (p_priority data)
          then '' --priority '' @ number_text (the (p_priority data)) else [])"

definition sugar_add_invocation :: "string \<Rightarrow> string \<Rightarrow> IpcPayload \<Rightarrow> invocation" where
  "sugar_add_invocation tmpFile path data = execSyncCmd tmpFile (sugar_add_cmd path data) (Some 30000)"

text \<open>The transcript extractor (\<open>kb/extractors/video.ts\<close>) starts its program through
  \<open>execSafe\<close>, with the URL as one argument.\<close>

definition video_title_invocation :: "string \<Rightarrow> string \<Rightarrow> invocation" where
  "video_title_invocation ytdlp url =
     ArgvCommand ytdlp [''--no-warnings'', ''--skip-download'', ''--print'', ''%(title)s'', url] 30000"

text \<open>A broker state to run the handlers on: the four groups of \<open>ex_router\<close>, one
  knowledge-base source that belongs to the group \<open>work\<close>, and one task of that group.\<close>

definition ex_ipc_env :: ipc_env where
  "ex_ipc_env =
     \<lparr> ipc_ASSISTANT_NAME = ''Alfred'',
       SUGAR_PROJECTS_FILE = ''/srv/nanoclaw/data/sugar-projects.json'',
       sugar_projects = [],
       cron_next = (\<lambda>v. None),
       date_now = 1769940000000,
       iso_string = (\<lambda>t. if t = 1769943600000 then ''2026-02-01T11:00:00.000Z'' else ''2026-02-01T10:00:00.000Z''),
       parse_date = (\<lambda>v. None),
       new_task_id = ''task-1'',
       ipc_now = ''2026-02-01T10:00:00Z'',
       db_failure = None,
       tool_handler = (\<lambda>ty data sourceGroup isMain w. (None, w)) \<rparr>"

definition ex_payload :: "string \<Rightarrow> IpcPayload" where
  "ex_payload ty =
     \<lparr> p_type = Some ty, p_chatJid = None, p_text = None, p_taskId = None, p_prompt = None,
       p_schedule_type = None, p_schedule_value = None, p_context_mode = None,
       p_groupFolder = None, p_jid = None, p_name = None, p_folder = None, p_trigger = None,
       p_containerConfig = None, p_sourceId = None, p_repo = None, p_state = None,
       p_limit = None, p_task = None, p_taskType = None, p_priority = None \<rparr>"

definition ex_task :: Task where
  "ex_task = \<lparr> t_id = ''task-7'', t_group_folder = ''work'', t_chat_jid = ''work@g.us'',
       t_prompt = ''stand-up summary'', t_schedule_type = ''cron'', t_schedule_value = ''0 9 * * *'',
       t_context_mode = ''group'', t_next_run = Some ''2026-02-02T03:30:00.000Z'',
       t_status = ''active'', t_created_at = ''2026-01-01T00:00:00Z'' \<rparr>"

definition ex_world :: ipc_world where
  "ex_world =
     \<lparr> w_registeredGroups = registeredGroups ex_router,
       w_tasks = [ex_task],
       w_kb = \<lparr> kb_sources = [ex_source ''kb-9'' ''work''],
                kb_chunks = [ex_chunk 1 ''kb-9'' 8], kb_available = True \<rparr>,
       w_events = [] \<rparr>"

definition ex_register_payload :: IpcPayload where
  "ex_register_payload =
     (ex_payload ''register_group'')\<lparr>p_jid := Some ''new@g.us'', p_name := Some ''New'',
        p_folder := Some ''new'', p_trigger := Some ''@Alfred''\<rparr>"

definition ex_kb_delete_payload :: IpcPayload where
  "ex_kb_delete_payload =
     (ex_payload ''kb_delete'')\<lparr>p_sourceId := Some ''kb-9'', p_groupFolder := Some ''family''\<rparr>"

section \<open>Properties of the semantic search\<close>

lemmas ex_search_defs = ex_api_def ex_source_def ex_chunk_def ex_db_def ex_opts_def
  search_def candidates_def select_rows_def join_row_def in_scope_def sort_desc_def js_slice0_def
  limit_of_def minSimilarity_of_def dedupeBySource_of_def Let_def

lemma set_insert_desc: "set (insert_desc r xs) = insert r (set xs)"
  by (induction xs) auto

lemma set_sort_desc: "set (sort_desc rs) = set rs"
  unfolding sort_desc_def by (induction rs) (auto simp: set_insert_desc)

lemma sorted_insert_desc:
  "sorted_wrt (\<lambda>a b. sr_similarity a \<ge> sr_similarity b) xs \<Longrightarrow>
   sorted_wrt (\<lambda>a b. sr_similarity a \<ge> sr_similarity b) (insert_desc r xs)"
  by (induction xs) (auto simp: set_insert_desc)

lemma sorted_sort_desc:
  "sorted_wrt (\<lambda>a b. sr_similarity a \<ge> sr_similarity b) (sort_desc rs)"
  unfolding sort_desc_def by (induction rs) (auto intro: sorted_insert_desc)

lemma length_insert_desc: "length (insert_desc r xs) = Suc (length xs)"
  by (induction xs) auto

lemma length_sort_desc: "length (sort_desc rs) = length rs"
  unfolding sort_desc_def by (induction rs) (auto simp: length_insert_desc)

lemma distinct_insert_desc:
  "distinct (map f (insert_desc r xs)) = distinct (map f (r # xs))"
  by (induction xs) (auto simp: set_insert_desc)

lemma distinct_map_sort_desc:
  "distinct (map f (sort_desc rs)) = distinct (map f rs)"
proof (induction rs)
  case Nil
  then show ?case by (simp add: sort_desc_def)
next
  case (Cons r rs)
  have "sort_desc (r # rs) = insert_desc r (sort_desc rs)" by (simp add: sort_desc_def)
  then show ?case using Cons by (simp add: distinct_insert_desc set_sort_desc)
qed

lemma score_rows_threshold:
  "r \<in> set (score_rows api q m rows) \<Longrightarrow> sr_similarity r \<ge> m"
  by (induction rows) (auto split: option.splits if_splits simp: Let_def)

lemma set_update_subset: "set (AList.update k v al) \<subseteq> insert (k, v) (set al)"
  by (induction al) auto

lemma best_inv_update:
  assumes "best_inv m"
  shows "best_inv (AList.update (sr_source_id r) r m)"
proof -
  have "distinct (map fst (AList.update (sr_source_id r) r m))"
    using assms by (simp add: best_inv_def distinct_update)
  moreover have "\<forall>(k, v) \<in> set (AList.update (sr_source_id r) r m). sr_source_id v = k"
    using assms set_update_subset[of "sr_source_id r" r m] by (auto simp: best_inv_def)
  ultimately show ?thesis by (simp add: best_inv_def)
qed

lemma bestBySource_inv: "best_inv m \<Longrightarrow> best_inv (bestBySource rs m)"
  by (induction rs m rule: bestBySource.induct) (auto split: option.splits simp: best_inv_update)

lemma bestBySource_dominates:
  "map_of m k = Some v \<Longrightarrow>
   \<exists>v'. map_of (bestBySource rs m) k = Some v' \<and> sr_similarity v' \<ge> sr_similarity v"
proof (induction rs arbitrary: m v)
  case Nil
  then show ?case by auto
next
  case (Cons r rs)
  let ?m' = "AList.update (sr_source_id r) r m"
  show ?case
  proof (cases "map_of m (sr_source_id r)")
    case None
    then have "k \<noteq> sr_source_id r" using Cons.prems by auto
    then have "map_of ?m' k = Some v" using Cons.prems by (simp add: update_conv')
    from Cons.IH[OF this] show ?thesis using None by simp
  next
    case (Some existing)
    show ?thesis
    proof (cases "sr_similarity r > sr_similarity existing")
      case False
      then show ?thesis using Some Cons.IH[OF Cons.prems] by simp
    next
      case True
      show ?thesis
      proof (cases "k = sr_source_id r")
        case True
        then have ev: "existing = v" using Some Cons.prems by simp
        have "map_of ?m' k = Some r" using True by (simp add: update_conv')
        from Cons.IH[OF this] obtain v' where
          "map_of (bestBySource rs ?m') k = Some v'" "sr_similarity v' \<ge> sr_similarity r"
          by blast
        then show ?thesis using Some \<open>sr_similarity r > sr_similarity existing\<close> ev
          by (auto intro!: exI[of _ v'])
      next
        case False
        then have "map_of ?m' k = Some v" using Cons.prems by (simp add: update_conv')
        from Cons.IH[OF this] show ?thesis using Some True by simp
      qed
    qed
  qed
qed

lemma bestBySource_covers:
  "r \<in> set rs \<Longrightarrow>
   \<exists>v'. map_of (bestBySource rs m) (sr_source_id r) = Some v' \<and> sr_similarity v' \<ge> sr_similarity r"
proof (induction rs arbitrary: m)
  case Nil
  then show ?case by simp
next
  case (Cons x rs)
  let ?m' = "AList.update (sr_source_id x) x m"
  show ?case
  proof (cases "r = x")
    case True
    show ?thesis
    proof (cases "map_of m (sr_source_id x)")
      case None
      have "map_of ?m' (sr_source_id x) = Some x" by (simp add: update_conv')
      from bestBySource_dominates[OF this, of rs] show ?thesis using None True by simp
    next
      case (Some existing)
      show ?thesis
      proof (cases "sr_similarity x > sr_similarity existing")
        case True
        have "map_of ?m' (sr_source_id x) = Some x" by (simp add: update_conv')
        from bestBySource_dominates[OF this, of rs] show ?thesis
          using Some True \<open>r = x\<close> by simp
      next
        case False
        from bestBySource_dominates[OF Some, of rs] obtain v' where
          "map_of (bestBySource rs m) (sr_source_id x) = Some v'"
          "sr_similarity v' \<ge> sr_similarity existing" by blast
        then show ?thesis using Some False \<open>r = x\<close> by (auto intro!: exI[of _ v'])
      qed
    qed
  next
    case False
    then have "r \<in> set rs" using Cons.prems by simp
    then show ?thesis using Cons.IH by (auto split: option.splits)
  qed
qed

lemma bestBySource_values:
  "snd ` set (bestBySource rs m) \<subseteq> set rs \<union> snd ` set m"
proof (induction rs m rule: bestBySource.induct)
  case (1 m)
  then show ?case by simp
next
  case (2 r rs m)
  have u: "snd ` set (AList.update (sr_source_id r) r m) \<subseteq> insert r (snd ` set m)"
    using set_update_subset[of "sr_source_id r" r m] by auto
  let ?m' = "AList.update (sr_source_id r) r m"
  show ?case
  proof (cases "map_of m (sr_source_id r)")
    case None
    then have "snd ` set (bestBySource rs ?m') \<subseteq> set rs \<union> snd ` set ?m'"
      using 2(1) by simp
    then show ?thesis using u None by auto
  next
    case (Some existing)
    show ?thesis
    proof (cases "sr_similarity r > sr_similarity existing")
      case True
      then have "snd ` set (bestBySource rs ?m') \<subseteq> set rs \<union> snd ` set ?m'"
        using 2(2) Some by simp
      then show ?thesis using u Some True by auto
    next
      case False
      then have "snd ` set (bestBySource rs m) \<subseteq> set rs \<union> snd ` set m"
        using 2(3) Some by simp
      then show ?thesis using Some False by auto
    qed
  qed
qed

lemma best_inv_Nil: "best_inv []"
  by (simp add: best_inv_def)

lemma map_snd_keys: "\<forall>x \<in> set xs. f (snd x) = fst x \<Longrightarrow> map (f \<circ> snd) xs = map fst xs"
  by (induction xs) auto

lemma dedupe_distinct: "distinct (map sr_source_id (map snd (bestBySource rs [])))"
proof -
  have inv: "best_inv (bestBySource rs [])" by (rule bestBySource_inv[OF best_inv_Nil])
  then have "\<forall>x \<in> set (bestBySource rs []). sr_source_id (snd x) = fst x"
    by (auto simp: best_inv_def)
  then have eq: "map (sr_source_id \<circ> snd) (bestBySource rs []) = map fst (bestBySource rs [])"
    by (rule map_snd_keys)
  have "distinct (map fst (bestBySource rs []))"
    using inv by (simp add: best_inv_def)
  then show ?thesis by (simp only: map_map eq)
qed

lemma dedupe_best:
  assumes "r \<in> snd ` set (bestBySource rs [])" "c \<in> set rs" "sr_source_id c = sr_source_id r"
  shows "sr_similarity c \<le> sr_similarity r"
proof -
  have inv: "best_inv (bestBySource rs [])" by (rule bestBySource_inv[OF best_inv_Nil])
  from assms(1) obtain k where kr: "(k, r) \<in> set (bestBySource rs [])" by auto
  then have "k = sr_source_id r" using inv by (auto simp: best_inv_def)
  then have "map_of (bestBySource rs []) (sr_source_id c) = Some r"
    using kr inv assms(3) by (simp add: best_inv_def)
  moreover from bestBySource_covers[OF assms(2), of "[]"] obtain v' where
    "map_of (bestBySource rs []) (sr_source_id c) = Some v'" "sr_similarity v' \<ge> sr_similarity c"
    by blast
  ultimately show ?thesis by simp
qed

lemma length_js_slice0: "0 \<le> e \<Longrightarrow> int (length (js_slice0 xs e)) \<le> e"
  by (simp add: js_slice0_def Let_def)

lemma set_js_slice0: "set (js_slice0 xs e) \<subseteq> set xs"
  by (simp add: js_slice0_def Let_def set_take_subset)

lemma sorted_js_slice0: "sorted_wrt P xs \<Longrightarrow> sorted_wrt P (js_slice0 xs e)"
  by (simp add: js_slice0_def Let_def)

lemma distinct_js_slice0: "distinct (map f xs) \<Longrightarrow> distinct (map f (js_slice0 xs e))"
  by (simp add: js_slice0_def Let_def flip: take_map)

text \<open>
  Claim C6, as the code has it.  Every result of \<open>search\<close> has a similarity of at least
  \<open>minSimilarity\<close> (0.7 when the option is absent); the results are in descending order
  of similarity; with \<open>dedupeBySource\<close> (the default) no two results share a
  \<open>source_id\<close> and each result is a best-scoring candidate chunk of its source; when the
  embeddings provider is unavailable the result is empty; and the list has at most
  \<open>limit\<close> entries whenever \<open>limit\<close> is not negative.  (A negative limit makes
  \<open>slice(0, limit)\<close> drop entries from the end instead.)
\<close>

theorem search_result_properties:
  "(\<forall>r \<in> set (search api db query opts). sr_similarity r \<ge> minSimilarity_of opts)
   \<and> sorted_wrt (\<lambda>a b. sr_similarity a \<ge> sr_similarity b) (search api db query opts)
   \<and> (dedupeBySource_of opts \<longrightarrow>
        distinct (map sr_source_id (search api db query opts))
        \<and> (\<forall>r \<in> set (search api db query opts).
             \<forall>c \<in> set (candidates api db (the (generateEmbedding api query)) opts).
               sr_source_id c = sr_source_id r \<longrightarrow> sr_similarity c \<le> sr_similarity r))
   \<and> (0 \<le> limit_of opts \<longrightarrow> int (length (search api db query opts)) \<le> limit_of opts)
   \<and> (\<not> kb_available db \<longrightarrow> search api db query opts = [])"
proof (cases "kb_available db \<and> generateEmbedding api query \<noteq> None")
  case False
  then have "search api db query opts = []"
    by (auto simp: search_def)
  then show ?thesis by simp
next
  case True
  then obtain q where q: "generateEmbedding api query = Some q" by auto
  define cs where "cs = candidates api db q opts"
  define final where "final = (if dedupeBySource_of opts
      then sort_desc (map snd (bestBySource (sort_desc cs) [])) else sort_desc cs)"
  have s: "search api db query opts = js_slice0 final (limit_of opts)"
    using True q by (simp add: search_def final_def cs_def Let_def)
  have sub: "set final \<subseteq> set cs"
    using bestBySource_values[of "sort_desc cs" "[]"]
    by (auto simp: final_def set_sort_desc)
  have thr: "\<forall>r \<in> set final. sr_similarity r \<ge> minSimilarity_of opts"
    using sub score_rows_threshold by (auto simp: cs_def candidates_def)
  have srt: "sorted_wrt (\<lambda>a b. sr_similarity a \<ge> sr_similarity b) final"
    by (simp add: final_def sorted_sort_desc)
  have dd: "dedupeBySource_of opts \<Longrightarrow> distinct (map sr_source_id final)"
    using dedupe_distinct[of "sort_desc cs"] by (simp add: final_def distinct_map_sort_desc)
  have best: "dedupeBySource_of opts \<Longrightarrow> r \<in> set final \<Longrightarrow> c \<in> set cs \<Longrightarrow>
      sr_source_id c = sr_source_id r \<Longrightarrow> sr_similarity c \<le> sr_similarity r" for r c
    using dedupe_best[of r "sort_desc cs" c] by (simp add: final_def set_sort_desc)
  have 1: "\<forall>r \<in> set (search api db query opts). sr_similarity r \<ge> minSimilarity_of opts"
    using thr set_js_slice0[of final "limit_of opts"] by (auto simp: s)
  have 2: "sorted_wrt (\<lambda>a b. sr_similarity a \<ge> sr_similarity b) (search api db query opts)"
    using srt by (simp add: s sorted_js_slice0)
  have 3: "dedupeBySource_of opts \<Longrightarrow> distinct (map sr_source_id (search api db query opts))"
    using dd by (simp add: s distinct_js_slice0)
  have 4: "dedupeBySource_of opts \<Longrightarrow> (\<forall>r \<in> set (search api db query opts).
             \<forall>c \<in> set (candidates api db (the (generateEmbedding api query)) opts).
               sr_source_id c = sr_source_id r \<longrightarrow> sr_similarity c \<le> sr_similarity r)"
    using best set_js_slice0[of final "limit_of opts"] by (auto simp: s q cs_def)
  have 5: "0 \<le> limit_of opts \<Longrightarrow> int (length (search api db query opts)) \<le> limit_of opts"
    by (simp add: s length_js_slice0)
  show ?thesis using 1 2 3 4 5 True by blast
qed

text \<open>
  The theorem at a store with four embedded chunks of two sources (similarities 0.8, 0.9,
  0.7 and 0.5) and \<open>limit = 2\<close>, and at the same store with the provider unavailable.
\<close>

theorem search_result_properties_witness:
  "dedupeBySource_of (ex_opts (Some 2) None) \<and> 0 \<le> limit_of (ex_opts (Some 2) None)
   \<and> map sr_chunk_id (search ex_api ex_db ''q'' (ex_opts (Some 2) None)) = [2, 3]
   \<and> map sr_similarity (search ex_api ex_db ''q'' (ex_opts (Some 2) None)) = [0.9, 0.7]
   \<and> sorted_wrt (\<lambda>a b. sr_similarity a \<ge> sr_similarity b)
         (search ex_api ex_db ''q'' (ex_opts (Some 2) None))
   \<and> distinct (map sr_source_id (search ex_api ex_db ''q'' (ex_opts (Some 2) None)))
   \<and> int (length (search ex_api ex_db ''q'' (ex_opts (Some 2) None))) \<le> 2
   \<and> \<not> kb_available (ex_db\<lparr>kb_available := False\<rparr>)
   \<and> search ex_api (ex_db\<lparr>kb_available := False\<rparr>) ''q'' (ex_opts (Some 2) None) = []"
  using search_result_properties[of ex_api ex_db "''q''" "ex_opts (Some 2) None"]
        search_result_properties[of ex_api "ex_db\<lparr>kb_available := False\<rparr>" "''q''"
          "ex_opts (Some 2) None"]
  by (simp add: ex_search_defs)

text \<open>
  Claim C6 as stated fails on the bound: with \<open>limit = -1\<close> (any number is accepted
  from the caller) and three candidates at or above the threshold, \<open>slice(0, -1)\<close>
  returns two results, which is more than \<open>limit\<close>.
\<close>

theorem search_limit_counterexample:
  "\<not> int (length (search ex_api ex_db ''q'' (ex_opts (Some (- 1)) (Some False))))
       \<le> limit_of (ex_opts (Some (- 1)) (Some False))"
  by (simp add: ex_search_defs)

section \<open>Properties of the ingestion pipeline\<close>

lemmas ex_ingest_defs = ex_ingest_env_def ex_api_def ex_api_down_def ex_params_def ex_empty_db_def
  ex_ingest_options_def finishIngestion_def embed_and_store_def persist_source_def
  createSource_def store_chunks_def store_chunk_def createChunk_def embedding_at_def
  getSourceByHash_def getSourceByUrl_def ingestUrl_def ingestUrlInternal_def ingest_failure_def
  truthy_def Let_def

lemma store_chunk_fold:
  "\<exists>new. fold (store_chunk api now sid chunks embs) idxs (db, k)
            = (db\<lparr>kb_chunks := kb_chunks db @ new\<rparr>, k + length new)
       \<and> map chunk_index new = filter (\<lambda>i. embedding_at embs i \<noteq> None) idxs
       \<and> (\<forall>c \<in> set new. chunk_embedding c \<noteq> None \<and> chunk_source_id c = sid)"
proof (induction idxs arbitrary: db k)
  case Nil
  show ?case by (rule exI[of _ "[]"]) simp
next
  case (Cons i idxs)
  show ?case
  proof (cases "embedding_at embs i")
    case None
    then have "store_chunk api now sid chunks embs i (db, k) = (db, k)"
      by (simp add: store_chunk_def)
    then show ?thesis using Cons.IH[of db k] None by auto
  next
    case (Some emb)
    define c where "c = \<lparr> chunk_id = int (length (kb_chunks db)) + 1, chunk_source_id = sid,
            chunk_index = i, chunk_content = chunks ! i,
            chunk_embedding = Some (serializeFloat32 api emb),
            chunk_embedding_dim = Some (length emb), chunk_embedding_provider = Some ''ollama'',
            chunk_embedding_model = Some ''nomic-embed-text'', chunk_created_at = now \<rparr>"
    have step: "store_chunk api now sid chunks embs i (db, k)
        = (db\<lparr>kb_chunks := kb_chunks db @ [c]\<rparr>, k + 1)"
      using Some by (simp add: store_chunk_def createChunk_def c_def)
    from Cons.IH[of "db\<lparr>kb_chunks := kb_chunks db @ [c]\<rparr>" "k + 1"]
    obtain new where new:
      "fold (store_chunk api now sid chunks embs) idxs (db\<lparr>kb_chunks := kb_chunks db @ [c]\<rparr>, k + 1)
         = (db\<lparr>kb_chunks := kb_chunks db @ [c] @ new\<rparr>, k + 1 + length new)"
      "map chunk_index new = filter (\<lambda>i. embedding_at embs i \<noteq> None) idxs"
      "\<forall>c \<in> set new. chunk_embedding c \<noteq> None \<and> chunk_source_id c = sid"
      by auto
    show ?thesis
      by (rule exI[of _ "c # new"]) (use step new Some in \<open>simp add: c_def\<close>)
  qed
qed

lemma store_chunks_result:
  "\<exists>new. store_chunks api now sid chunks embs db
            = (db\<lparr>kb_chunks := kb_chunks db @ new\<rparr>, length new)
       \<and> map chunk_index new = filter (\<lambda>i. embedding_at embs i \<noteq> None) [0..<length chunks]
       \<and> (\<forall>c \<in> set new. chunk_embedding c \<noteq> None \<and> chunk_source_id c = sid)"
  using store_chunk_fold[of api now sid chunks embs "[0..<length chunks]" db 0]
  by (simp add: store_chunks_def)

lemma kb_chunks_updateSource [simp]:
  "kb_chunks (updateSource now i u t r h g db) = kb_chunks db"
  by (simp add: updateSource_def)

lemma kb_chunks_createSource [simp]:
  "kb_chunks (snd (createSource n now g u t st r h tg db)) = kb_chunks db"
  by (simp add: createSource_def Let_def)

lemma kb_chunks_persist_source:
  "kb_chunks (snd (persist_source env params f h db)) = kb_chunks db"
  by (simp add: persist_source_def split: option.splits)

lemma embed_and_store_result:
  "\<exists>new. embed_and_store env api params final sdb
       = (\<lparr> ir_success = True, ir_source_id = Some (src_id (fst sdb)),
            ir_chunks_count = Some (length new), ir_error = None,
            ir_existingSourceId = None,
            ir_updated = Some (fp_existingSource params \<noteq> None) \<rparr>,
          (snd sdb)\<lparr>kb_available := snd (generateEmbeddingsBatch api (chunkText env final)),
                    kb_chunks := kb_chunks (snd sdb) @ new\<rparr>)
     \<and> map chunk_index new
          = filter (\<lambda>i. embedding_at (fst (generateEmbeddingsBatch api (chunkText env final))) i \<noteq> None)
              [0..<length (chunkText env final)]
     \<and> (\<forall>c \<in> set new. chunk_embedding c \<noteq> None \<and> chunk_source_id c = src_id (fst sdb))"
proof -
  let ?batch = "generateEmbeddingsBatch api (chunkText env final)"
  let ?db1 = "(snd sdb)\<lparr>kb_available := snd ?batch\<rparr>"
  from store_chunks_result[of api "now_iso env" "src_id (fst sdb)" "chunkText env final" "fst ?batch" ?db1]
  obtain new where new:
    "store_chunks api (now_iso env) (src_id (fst sdb)) (chunkText env final) (fst ?batch) ?db1
       = (?db1\<lparr>kb_chunks := kb_chunks ?db1 @ new\<rparr>, length new)"
    "map chunk_index new = filter (\<lambda>i. embedding_at (fst ?batch) i \<noteq> None) [0..<length (chunkText env final)]"
    "\<forall>c \<in> set new. chunk_embedding c \<noteq> None \<and> chunk_source_id c = src_id (fst sdb)"
    by blast
  show ?thesis
    by (rule exI[of _ new]) (simp add: embed_and_store_def Let_def new)
qed

text \<open>The three ways finishIngestion ends.\<close>

lemma finishIngestion_cases:
  assumes cleaned: "cleaned = cleanContent env (fp_content params)"
    and final: "final = (if vr_truncated (validateContent env cleaned (fp_sourceType params)) = Some True
                         then take (MAX_CONTENT_LENGTH env) cleaned else cleaned)"
    and hash: "h = generateContentHash env final"
  shows "finishIngestion env api params db =
     (if \<not> vr_valid (validateContent env cleaned (fp_sourceType params))
      then (ingest_failure (vr_reason (validateContent env cleaned (fp_sourceType params))) None, db)
      else if fp_existingSource params = None \<and> getSourceByHash db h \<noteq> None
      then (ingest_failure (Some ''Duplicate content (same hash)'')
              (Some (src_id (the (getSourceByHash db h)))), db)
      else embed_and_store env api params final (persist_source env params final h db))"
  by (auto simp: finishIngestion_def Let_def cleaned final hash)

lemma ingest_failure_not_success [simp]: "\<not> ir_success (ingest_failure e x)"
  by (simp add: ingest_failure_def)

text \<open>
  Claim C4, as the code has it.  When \<open>finishIngestion\<close> succeeds, the chunk rows it
  adds are exactly those chunk indices for which the provider returned an embedding, in
  order, each with a stored embedding, and \<open>chunks_count\<close> counts them.  A chunk without
  an embedding is not stored: when no chunk gets an embedding (the provider is down) the
  source is ingested with no chunk row at all and \<open>chunks_count = 0\<close>.
\<close>

theorem finishIngestion_stores_embedded_chunks_only:
  assumes run: "finishIngestion env api params db = (res, db')"
    and ok: "ir_success res"
    and cleaned: "cleaned = cleanContent env (fp_content params)"
    and final: "final = (if vr_truncated (validateContent env cleaned (fp_sourceType params)) = Some True
                         then take (MAX_CONTENT_LENGTH env) cleaned else cleaned)"
    and embs: "embeddings = fst (generateEmbeddingsBatch api (chunkText env final))"
  shows "\<exists>new. kb_chunks db' = kb_chunks db @ new
      \<and> map chunk_index new
          = filter (\<lambda>i. embedding_at embeddings i \<noteq> None) [0..<length (chunkText env final)]
      \<and> (\<forall>c \<in> set new. chunk_embedding c \<noteq> None)
      \<and> ir_chunks_count res = Some (length new)
      \<and> ((\<forall>i < length (chunkText env final). embedding_at embeddings i = None)
            \<longrightarrow> kb_chunks db' = kb_chunks db \<and> ir_chunks_count res = Some 0)"
proof -
  define h where "h = generateContentHash env final"
  define sdb where "sdb = persist_source env params final h db"
  have fin: "finishIngestion env api params db = embed_and_store env api params final sdb"
    using run ok finishIngestion_cases[OF cleaned final h_def, of api db]
    by (auto simp: sdb_def split: if_splits)
  from embed_and_store_result[of env api params final sdb]
  obtain new where new:
    "embed_and_store env api params final sdb
       = (\<lparr> ir_success = True, ir_source_id = Some (src_id (fst sdb)),
            ir_chunks_count = Some (length new), ir_error = None,
            ir_existingSourceId = None,
            ir_updated = Some (fp_existingSource params \<noteq> None) \<rparr>,
          (snd sdb)\<lparr>kb_available := snd (generateEmbeddingsBatch api (chunkText env final)),
                    kb_chunks := kb_chunks (snd sdb) @ new\<rparr>)"
    "map chunk_index new = filter (\<lambda>i. embedding_at embeddings i \<noteq> None) [0..<length (chunkText env final)]"
    "\<forall>c \<in> set new. chunk_embedding c \<noteq> None \<and> chunk_source_id c = src_id (fst sdb)"
    unfolding embs by blast
  have a: "kb_chunks db' = kb_chunks db @ new"
    using run fin new(1) by (auto simp: sdb_def kb_chunks_persist_source)
  have b: "ir_chunks_count res = Some (length new)"
    using run fin new(1) by auto
  have c: "new = []" if "\<forall>i < length (chunkText env final). embedding_at embeddings i = None"
  proof -
    from that have "filter (\<lambda>i. embedding_at embeddings i \<noteq> None) [0..<length (chunkText env final)] = []"
      by (simp add: filter_empty_conv)
    then show "new = []" using new(2) by simp
  qed
  show ?thesis
    by (rule exI[of _ new]) (use a b c new(2,3) in auto)
qed

text \<open>
  The theorem at a note cut into two chunks, once with a provider that embeds the first
  chunk only and once with the provider down.
\<close>

theorem finishIngestion_stores_embedded_chunks_only_witness:
  "ir_success (fst (finishIngestion ex_ingest_env ex_api ex_params ex_empty_db))
   \<and> chunkText ex_ingest_env ''hello world'' = [''hello'', '' world'']
   \<and> map chunk_index (kb_chunks (snd (finishIngestion ex_ingest_env ex_api ex_params ex_empty_db))) = [0]
   \<and> ir_chunks_count (fst (finishIngestion ex_ingest_env ex_api ex_params ex_empty_db)) = Some 1
   \<and> ir_success (fst (finishIngestion ex_ingest_env ex_api_down ex_params ex_empty_db))
   \<and> embedding_at (fst (generateEmbeddingsBatch ex_api_down [''hello'', '' world''])) 0 = None
   \<and> embedding_at (fst (generateEmbeddingsBatch ex_api_down [''hello'', '' world''])) 1 = None
   \<and> kb_chunks (snd (finishIngestion ex_ingest_env ex_api_down ex_params ex_empty_db)) = []
   \<and> ir_chunks_count (fst (finishIngestion ex_ingest_env ex_api_down ex_params ex_empty_db)) = Some 0"
  using finishIngestion_stores_embedded_chunks_only[of ex_ingest_env ex_api ex_params ex_empty_db
          "fst (finishIngestion ex_ingest_env ex_api ex_params ex_empty_db)"
          "snd (finishIngestion ex_ingest_env ex_api ex_params ex_empty_db)", OF _ _ refl refl refl]
        finishIngestion_stores_embedded_chunks_only[of ex_ingest_env ex_api_down ex_params ex_empty_db
          "fst (finishIngestion ex_ingest_env ex_api_down ex_params ex_empty_db)"
          "snd (finishIngestion ex_ingest_env ex_api_down ex_params ex_empty_db)", OF _ _ refl refl refl]
  by (simp add: ex_ingest_defs)

text \<open>
  Claim C4 as stated fails: with the provider down, the ingestion of a note that is cut
  into two chunks succeeds and stores no chunk, where the claim has both chunks stored
  with a null embedding.
\<close>

theorem ingestion_provider_down_counterexample:
  "ir_success (fst (finishIngestion ex_ingest_env ex_api_down ex_params ex_empty_db))
   \<and> length (chunkText ex_ingest_env ''hello world'') = 2
   \<and> kb_chunks (snd (finishIngestion ex_ingest_env ex_api_down ex_params ex_empty_db)) = []"
  by (simp add: ex_ingest_defs)

lemma embed_and_store_sources:
  "kb_sources (snd (embed_and_store env api params final sdb)) = kb_sources (snd sdb)"
  using embed_and_store_result[of env api params final sdb] by auto

lemma embed_and_store_source_id:
  "ir_source_id (fst (embed_and_store env api params final sdb)) = Some (src_id (fst sdb))"
  by (simp add: embed_and_store_def Let_def)

lemma kb_unique_snoc:
  "kb_unique (ss @ [n]) = (kb_unique ss \<and> (\<forall>t \<in> set ss. \<not> kb_conflict t n))"
  by (induction ss) (auto simp: list_all_iff)

lemma find_None_iff': "(find P xs = None) = (\<forall>x \<in> set xs. \<not> P x)"
  by (induction xs) auto

lemma find_snoc_new: "find P xs = None \<Longrightarrow> P n \<Longrightarrow> find P (xs @ [n]) = Some n"
  by (induction xs) (auto split: if_splits)

text \<open>A successful ingestion of a new URL appends exactly one source.\<close>

lemma finishIngestion_new_source:
  assumes run: "finishIngestion env api params db = (res, db')"
    and ok: "ir_success res"
    and new: "fp_existingSource params = None"
  shows "\<exists>s. kb_sources db' = kb_sources db @ [s] \<and> src_url s = fp_url params
           \<and> src_group_folder s = fp_groupFolder params
           \<and> ir_source_id res = Some (src_id s)
           \<and> getSourceByHash db (src_content_hash s) = None"
proof -
  define cleaned where "cleaned = cleanContent env (fp_content params)"
  define final where "final = (if vr_truncated (validateContent env cleaned (fp_sourceType params)) = Some True
                         then take (MAX_CONTENT_LENGTH env) cleaned else cleaned)"
  define h where "h = generateContentHash env final"
  define sdb where "sdb = persist_source env params final h db"
  have c: "finishIngestion env api params db = embed_and_store env api params final sdb"
      and nodup: "getSourceByHash db h = None"
    using run ok new finishIngestion_cases[OF cleaned_def final_def h_def, of api db]
    by (auto simp: sdb_def split: if_splits)
  have s: "kb_sources (snd sdb) = kb_sources db @ [fst sdb]" "src_url (fst sdb) = fp_url params"
     "src_group_folder (fst sdb) = fp_groupFolder params" "src_content_hash (fst sdb) = h"
    using new by (simp_all add: sdb_def persist_source_def createSource_def Let_def)
  have "kb_sources db' = kb_sources db @ [fst sdb]"
    using run c s(1) embed_and_store_sources[of env api params final sdb] by simp
  moreover have "ir_source_id res = Some (src_id (fst sdb))"
    using run c embed_and_store_source_id[of env api params final sdb] by simp
  ultimately show ?thesis using s nodup by (intro exI[of _ "fst sdb"]) simp
qed

lemma finishIngestion_failure_keeps_store:
  assumes run: "finishIngestion env api params db = (res, db')"
    and fail: "\<not> ir_success res"
  shows "db' = db"
proof -
  define cleaned where "cleaned = cleanContent env (fp_content params)"
  define final where "final = (if vr_truncated (validateContent env cleaned (fp_sourceType params)) = Some True
                         then take (MAX_CONTENT_LENGTH env) cleaned else cleaned)"
  define h where "h = generateContentHash env final"
  have "ir_success (fst (embed_and_store env api params final
           (persist_source env params final h db)))"
    by (simp add: embed_and_store_def Let_def)
  then have "embed_and_store env api params final (persist_source env params final h db)
               \<noteq> (res, db')"
    using fail by auto
  then show ?thesis
    using run fail finishIngestion_cases[OF cleaned_def final_def h_def, of api db]
    by (auto split: if_splits)
qed

text \<open>What one call of ingestUrl does to the source table.\<close>

lemma ingestUrl_sources:
  assumes run: "ingestUrl env api url options db = (res, db')"
  shows "(\<not> ir_success res \<and> db' = db)
       \<or> (ir_success res \<and> getSourceByUrl db (normalizeUrl env url) = None
           \<and> (\<exists>s. kb_sources db' = kb_sources db @ [s]
                 \<and> src_url s = Some (normalizeUrl env url)
                 \<and> src_group_folder s = io_groupFolder options
                 \<and> ir_source_id res = Some (src_id s)
                 \<and> getSourceByHash db (src_content_hash s) = None))"
proof (cases "getSourceByUrl db (normalizeUrl env url)")
  case (Some e)
  then show ?thesis
    using run by (auto simp: ingestUrl_def ingestUrlInternal_def Let_def)
next
  case None
  define st where "st = (case io_sourceType options of Some t \<Rightarrow> t | None \<Rightarrow> detectSourceType env url)"
  show ?thesis
  proof (cases "extractContent env url st")
    case (Extracted title content)
    define params where "params = \<lparr> fp_url = Some (normalizeUrl env url), fp_title = Some title,
        fp_content = content, fp_sourceType = st, fp_groupFolder = io_groupFolder options,
        fp_tags = io_tags options, fp_existingSource = (None :: KBSource option) \<rparr>"
    have fin: "finishIngestion env api params db = (res, db')"
      using run None Extracted
      by (simp add: ingestUrl_def ingestUrlInternal_def Let_def st_def params_def)
    show ?thesis
    proof (cases "ir_success res")
      case True
      from finishIngestion_new_source[OF fin True] show ?thesis
        using True None by (simp add: params_def)
    next
      case False
      from finishIngestion_failure_keeps_store[OF fin False] show ?thesis
        using False by simp
    qed
  next
    case ExtractNull
    then show ?thesis
      using run None by (auto simp: ingestUrl_def ingestUrlInternal_def Let_def st_def)
  next
    case (ExtractThrows err)
    then show ?thesis
      using run None by (auto simp: ingestUrl_def ingestUrlInternal_def Let_def st_def)
  qed
qed

text \<open>
  Claim C5.  If \<open>ingestUrl\<close> succeeds on a URL, it has added one source, and a second
  \<open>ingestUrl\<close> of any URL with the same normalization (into the same or any group)
  returns the failure "URL already ingested" carrying the id of the source the first call
  created, and leaves the store as it was.  Every \<open>ingestUrl\<close> call keeps the
  uniqueness of content hash and URL among the sources of each group.
\<close>

theorem ingestUrl_idempotent_on_url:
  assumes first: "ingestUrl env api url options db = (res, db')"
    and same: "normalizeUrl env url2 = normalizeUrl env url"
  shows "(ir_success res \<longrightarrow>
            length (kb_sources db') = Suc (length (kb_sources db))
          \<and> ingestUrl env api url2 options2 db'
             = (\<lparr> ir_success = False, ir_source_id = None, ir_chunks_count = None,
                  ir_error = Some ''URL already ingested'',
                  ir_existingSourceId = ir_source_id res, ir_updated = None \<rparr>, db'))
       \<and> (kb_unique (kb_sources db) \<longrightarrow> kb_unique (kb_sources db'))"
proof (cases "ir_success res")
  case False
  then have "db' = db" using ingestUrl_sources[OF first] by auto
  then show ?thesis using False by simp
next
  case True
  from ingestUrl_sources[OF first] True obtain s where s:
    "getSourceByUrl db (normalizeUrl env url) = None"
    "kb_sources db' = kb_sources db @ [s]" "src_url s = Some (normalizeUrl env url)"
    "ir_source_id res = Some (src_id s)" "getSourceByHash db (src_content_hash s) = None"
    by auto
  have found: "getSourceByUrl db' (normalizeUrl env url2) = Some s"
    using s(1,2,3) same by (simp add: getSourceByUrl_def find_snoc_new)
  have second: "ingestUrl env api url2 options2 db'
           = (\<lparr> ir_success = False, ir_source_id = None, ir_chunks_count = None,
                ir_error = Some ''URL already ingested'',
                ir_existingSourceId = ir_source_id res, ir_updated = None \<rparr>, db')"
    using found s(4) by (simp add: ingestUrl_def ingestUrlInternal_def Let_def ingest_failure_def)
  have nc: "\<forall>t \<in> set (kb_sources db). \<not> kb_conflict t s"
    using s(1,3,5) by (auto simp: getSourceByUrl_def getSourceByHash_def find_None_iff' kb_conflict_def)
  have uniq: "kb_unique (kb_sources db) \<Longrightarrow> kb_unique (kb_sources db')"
    using nc by (simp add: s(2) kb_unique_snoc)
  show ?thesis using second uniq s(2) by simp
qed

text \<open>
  The theorem at an empty store: the first ingestion of \<open>https://example.com/a\<close>
  creates the source, the ingestion of \<open>https://example.com/a/\<close> (the same URL after
  normalization) is refused with the id of that source.
\<close>

theorem ingestUrl_idempotent_on_url_witness:
  "ir_success (fst (ingestUrl ex_ingest_env ex_api ''https://example.com/a'' ex_ingest_options ex_empty_db))
   \<and> normalizeUrl ex_ingest_env ''https://example.com/a/'' = normalizeUrl ex_ingest_env ''https://example.com/a''
   \<and> kb_unique (kb_sources ex_empty_db)
   \<and> ir_existingSourceId (fst (ingestUrl ex_ingest_env ex_api ''https://example.com/a/'' ex_ingest_options
         (snd (ingestUrl ex_ingest_env ex_api ''https://example.com/a'' ex_ingest_options ex_empty_db))))
       = Some ''kb-1739451234-abc123''
   \<and> length (kb_sources (snd (ingestUrl ex_ingest_env ex_api ''https://example.com/a/'' ex_ingest_options
         (snd (ingestUrl ex_ingest_env ex_api ''https://example.com/a'' ex_ingest_options ex_empty_db))))) = 1
   \<and> kb_unique (kb_sources (snd (ingestUrl ex_ingest_env ex_api ''https://example.com/a''
         ex_ingest_options ex_empty_db)))"
  using ingestUrl_idempotent_on_url[of ex_ingest_env ex_api "''https://example.com/a''"
          ex_ingest_options ex_empty_db
          "fst (ingestUrl ex_ingest_env ex_api ''https://example.com/a'' ex_ingest_options ex_empty_db)"
          "snd (ingestUrl ex_ingest_env ex_api ''https://example.com/a'' ex_ingest_options ex_empty_db)"
          "''https://example.com/a/''" ex_ingest_options]
  by (simp add: ex_ingest_defs)

section \<open>Properties of the intake pipeline\<close>

lemmas ex_intake_defs = ex_group_def ex_router_def ex_message_def ex_env_def ex_output_def
  ex_jids_def ex_bots_def ex_store_def

lemmas intake_eval_defs = processMessage_def trigger_gate_def starts_with_trigger_def
  js_trim_def js_whitespace_def canonicalize_def MAIN_GROUP_FOLDER_def
  word_boundary_def word_at_def word_char_def getAssistantNameFromTrigger_def Let_def
  runAgent_def agent_input_def setTyping_def sendMessage_def saveState_def truthy_def error_text_def

subsection \<open>Sessions\<close>

text \<open>
  Claim C3, as the code has it.  \<open>runAgent\<close> changes the session of the group, in memory
  and in \<open>sessions.json\<close>, exactly when the container call returns a response carrying
  a non-empty \<open>newSessionId\<close>, whatever the status of that response; the new value is
  that id.  A container call that throws, a response without \<open>newSessionId\<close>, and a
  failure before the container is started leave both as they were.
\<close>

theorem runAgent_session_update:
  "sessions (snd (snd (runAgent env grp prompt chatJid lastContent st))) =
     (case snapshot_error env (g_folder grp) of
        Some err \<Rightarrow> sessions st
      | None \<Rightarrow>
          (case runContainerAgent env grp (agent_input env grp prompt chatJid lastContent st) of
             Inl err \<Rightarrow> sessions st
           | Inr output \<Rightarrow>
               if truthy (co_newSessionId output)
               then (sessions st)(g_folder grp \<mapsto> the (co_newSessionId output))
               else sessions st))
   \<and> sessions_file (snd (snd (runAgent env grp prompt chatJid lastContent st))) =
     (case snapshot_error env (g_folder grp) of
        Some err \<Rightarrow> sessions_file st
      | None \<Rightarrow>
          (case runContainerAgent env grp (agent_input env grp prompt chatJid lastContent st) of
             Inl err \<Rightarrow> sessions_file st
           | Inr output \<Rightarrow>
               if truthy (co_newSessionId output)
               then (sessions st)(g_folder grp \<mapsto> the (co_newSessionId output))
               else sessions_file st))"
  by (simp add: runAgent_def Let_def split: option.splits sum.splits)

text \<open>
  The theorem at a response \<open>ok\<close> with a new session id, at a run that throws, and at
  a response without a session id.
\<close>

theorem runAgent_session_update_witness:
  "sessions (snd (snd (runAgent (ex_env (Inr (ex_output StatusOk (Some ''hi'') (Some ''sess-2'') None)) True)
       (ex_group ''Family'' ''family'' ''@Bhavi'') ''p'' ''fam@g.us'' None ex_router))) ''family''
     = Some ''sess-2''
   \<and> sessions (snd (snd (runAgent (ex_env (Inl ''Container timed out after 300000ms'') True)
       (ex_group ''Family'' ''family'' ''@Bhavi'') ''p'' ''fam@g.us'' None ex_router))) ''family''
     = Some ''sess-1''
   \<and> sessions_file (snd (snd (runAgent (ex_env (Inr (ex_output StatusOk (Some ''hi'') None None)) True)
       (ex_group ''Family'' ''family'' ''@Bhavi'') ''p'' ''fam@g.us'' None ex_router))) ''family''
     = Some ''sess-1''"
  using runAgent_session_update[of "ex_env (Inr (ex_output StatusOk (Some ''hi'') (Some ''sess-2'') None)) True"
          "ex_group ''Family'' ''family'' ''@Bhavi''" "''p''" "''fam@g.us''" None ex_router]
        runAgent_session_update[of "ex_env (Inl ''Container timed out after 300000ms'') True"
          "ex_group ''Family'' ''family'' ''@Bhavi''" "''p''" "''fam@g.us''" None ex_router]
        runAgent_session_update[of "ex_env (Inr (ex_output StatusOk (Some ''hi'') None None)) True"
          "ex_group ''Family'' ''family'' ''@Bhavi''" "''p''" "''fam@g.us''" None ex_router]
  by (simp add: ex_intake_defs truthy_def)

text \<open>
  Claim C3 as stated fails: a response with status \<open>error\<close> that carries a
  \<open>newSessionId\<close> replaces the stored session of the group, in memory and on file.
\<close>

theorem session_changed_by_error_response_counterexample:
  "co_status (ex_output StatusError None (Some ''sess-2'') (Some ''boom'')) = StatusError
   \<and> sessions ex_router ''family'' = Some ''sess-1''
   \<and> sessions_file ex_router ''family'' = Some ''sess-1''
   \<and> sessions (snd (snd (runAgent
         (ex_env (Inr (ex_output StatusError None (Some ''sess-2'') (Some ''boom''))) True)
         (ex_group ''Family'' ''family'' ''@Bhavi'') ''p'' ''fam@g.us'' None ex_router))) ''family''
       = Some ''sess-2''
   \<and> sessions_file (snd (snd (runAgent
         (ex_env (Inr (ex_output StatusError None (Some ''sess-2'') (Some ''boom''))) True)
         (ex_group ''Family'' ''family'' ''@Bhavi'') ''p'' ''fam@g.us'' None ex_router))) ''family''
       = Some ''sess-2''"
  by (simp add: ex_intake_defs intake_eval_defs)

subsection \<open>The trigger pattern\<close>

lemma parse_plain:
  "\<not> syntax_char c \<Longrightarrow> parse_pattern (c # r) = map_option (Cons (AChar c)) (parse_pattern r)"
  by (cases r) (auto simp: syntax_char_def)

lemma parse_escaped:
  "syntax_char c \<Longrightarrow> parse_pattern (CHR 0x5C # c # r) = map_option (Cons (AChar c)) (parse_pattern r)"
  by (auto simp: syntax_char_def)

lemma parse_escapeRegex:
  "parse_pattern (escapeRegex name @ r) = map_option ((@) (map AChar name)) (parse_pattern r)"
proof (induction name)
  case Nil
  show ?case by (simp add: escapeRegex_def option.map_ident)
next
  case (Cons c name)
  have e: "escapeRegex (c # name) = (if syntax_char c then [CHR 0x5C, c] else [c]) @ escapeRegex name"
    by (simp add: escapeRegex_def)
  show ?case
  proof (cases "syntax_char c")
    case True
    then show ?thesis using Cons
      by (simp add: e parse_escaped option.map_comp comp_def del: parse_pattern.simps)
  next
    case False
    then show ?thesis using Cons
      by (simp add: e parse_plain option.map_comp comp_def del: parse_pattern.simps)
  qed
qed

lemma buildTriggerPattern_literal:
  "buildTriggerPattern trigger
     = Some (AStart # AChar (CHR ''@'') # map AChar (getAssistantNameFromTrigger trigger) @ [AWordBoundary])"
proof -
  have b: "parse_pattern [CHR 0x5C, CHR ''b''] = Some [AWordBoundary]" by simp
  have at: "\<not> syntax_char (CHR ''@'')" by (simp add: syntax_char_def)
  have "parse_pattern (''^@'' @ escapeRegex n @ [CHR 0x5C, CHR ''b''])
      = Some (AStart # AChar (CHR ''@'') # map AChar n @ [AWordBoundary])" for n
  proof -
    have "parse_pattern (CHR ''^'' # CHR ''@'' # (escapeRegex n @ [CHR 0x5C, CHR ''b'']))
        = map_option (Cons AStart) (parse_pattern (CHR ''@'' # (escapeRegex n @ [CHR 0x5C, CHR ''b''])))"
      by simp
    also have "\<dots> = map_option (Cons AStart) (map_option (Cons (AChar (CHR ''@'')))
          (parse_pattern (escapeRegex n @ [CHR 0x5C, CHR ''b''])))"
      by (simp only: parse_plain[OF at])
    also have "\<dots> = Some (AStart # AChar (CHR ''@'') # map AChar n @ [AWordBoundary])"
      by (simp only: parse_escapeRegex b option.map list.map append.simps)
    finally show ?thesis by simp
  qed
  then show ?thesis
    by (simp add: buildTriggerPattern_def getAssistantNameFromTrigger_def Let_def del: parse_pattern.simps)
qed

lemma match_chars:
  "i \<le> length s \<Longrightarrow> match_atoms (map AChar cs @ as) s i
     = (i + length cs \<le> length s
        \<and> map canonicalize (take (length cs) (drop i s)) = map canonicalize cs
        \<and> match_atoms as s (i + length cs))"
proof (induction cs arbitrary: i)
  case Nil
  then show ?case by simp
next
  case (Cons c cs)
  have d: "i < length s \<Longrightarrow> drop i s = s ! i # drop (Suc i) s"
    by (simp add: Cons_nth_drop_Suc)
  show ?case
  proof (cases "i < length s")
    case True
    then show ?thesis using Cons.IH[of "Suc i"] d by auto
  next
    case False
    then show ?thesis by simp
  qed
qed

lemma regex_test_anchored:
  "regex_test (AStart # as) s = match_atoms as s 0"
  by (auto simp: regex_test_def list_ex_iff)

lemma trigger_pattern_test:
  "regex_test (the (buildTriggerPattern trigger)) content = starts_with_trigger trigger content"
proof -
  let ?name = "getAssistantNameFromTrigger trigger"
  have "regex_test (AStart # (map AChar (CHR ''@'' # ?name) @ [AWordBoundary])) content
      = starts_with_trigger trigger content"
    unfolding regex_test_anchored
    by (subst match_chars) (auto simp: starts_with_trigger_def Let_def)
  then show ?thesis by (simp add: buildTriggerPattern_literal)
qed

lemma trigger_gate_eq:
  "trigger_gate grp content
     = (g_folder grp = MAIN_GROUP_FOLDER \<or> starts_with_trigger (g_trigger grp) content)"
  using trigger_pattern_test[of "g_trigger grp" content]
  by (simp add: trigger_gate_def buildTriggerPattern_literal)

subsection \<open>One message\<close>

lemma runAgent_throw:
  "snapshot_error env (g_folder grp) = Some e \<Longrightarrow> runAgent env grp p j l st = (Some e, None, st)"
  by (simp add: runAgent_def)

lemma runAgent_run:
  assumes "snapshot_error env (g_folder grp) = None"
  shows "\<exists>resp st2. runAgent env grp p j l st = (None, resp, st2)
           \<and> trace st2 = trace st @ [AgentRun (agent_input env grp p j l st)]
           \<and> lastTimestamp st2 = lastTimestamp st"
proof (cases "runContainerAgent env grp (agent_input env grp p j l st)")
  case (Inl err)
  then show ?thesis using assms by (simp add: runAgent_def Let_def)
next
  case (Inr out)
  then show ?thesis using assms by (simp add: runAgent_def Let_def)
qed

lemma pm_unregistered:
  "map_of (registeredGroups st) (m_chat_jid msg) = None \<Longrightarrow> processMessage env msg st = (None, st)"
  by (simp add: processMessage_def)

lemma pm_gate:
  "map_of (registeredGroups st) (m_chat_jid msg) = Some grp \<Longrightarrow>
   \<not> trigger_gate grp (js_trim (m_content msg)) \<Longrightarrow> processMessage env msg st = (None, st)"
  by (simp add: processMessage_def Let_def)

lemma pm_store_throw:
  "map_of (registeredGroups st) (m_chat_jid msg) = Some grp \<Longrightarrow>
   trigger_gate grp (js_trim (m_content msg)) \<Longrightarrow>
   getMessagesSince env (m_chat_jid msg)
      (case lastAgentTimestamp st (m_chat_jid msg) of None \<Rightarrow> [] | Some t \<Rightarrow> t)
      (getAssistantNameFromTrigger (g_trigger grp)) = Inl err \<Longrightarrow>
   processMessage env msg st = (Some err, st)"
  by (simp add: processMessage_def Let_def)

lemma pm_snapshot_throw:
  "map_of (registeredGroups st) (m_chat_jid msg) = Some grp \<Longrightarrow>
   trigger_gate grp (js_trim (m_content msg)) \<Longrightarrow>
   getMessagesSince env (m_chat_jid msg)
      (case lastAgentTimestamp st (m_chat_jid msg) of None \<Rightarrow> [] | Some t \<Rightarrow> t)
      (getAssistantNameFromTrigger (g_trigger grp)) = Inr missed \<Longrightarrow>
   snapshot_error env (g_folder grp) = Some e \<Longrightarrow>
   processMessage env msg st = (Some e, setTyping (m_chat_jid msg) True st)"
  by (simp add: processMessage_def Let_def runAgent_throw)

lemma pm_run:
  assumes reg: "map_of (registeredGroups st) (m_chat_jid msg) = Some grp"
    and gate: "trigger_gate grp (js_trim (m_content msg))"
    and missed: "getMessagesSince env (m_chat_jid msg)
      (case lastAgentTimestamp st (m_chat_jid msg) of None \<Rightarrow> [] | Some t \<Rightarrow> t)
      (getAssistantNameFromTrigger (g_trigger grp)) = Inr missed"
    and snap: "snapshot_error env (g_folder grp) = None"
  shows "\<exists>st' i evs. processMessage env msg st = (None, st')
           \<and> trace st' = trace st @ TypingSet (m_chat_jid msg) True # AgentRun i # evs
           \<and> lastTimestamp st' = lastTimestamp st"
proof -
  let ?st1 = "setTyping (m_chat_jid msg) True st"
  let ?p = "build_prompt missed"
  let ?l = "if missed = [] then None else Some (m_content (last missed))"
  from runAgent_run[OF snap, of ?p "m_chat_jid msg" ?l ?st1]
  obtain resp st2 where r: "runAgent env grp ?p (m_chat_jid msg) ?l ?st1 = (None, resp, st2)"
    "trace st2 = trace ?st1 @ [AgentRun (agent_input env grp ?p (m_chat_jid msg) ?l ?st1)]"
    "lastTimestamp st2 = lastTimestamp ?st1"
    by blast
  show ?thesis
  proof (cases "truthy resp")
    case True
    then show ?thesis using reg gate missed r
      by (simp add: processMessage_def Let_def setTyping_def sendMessage_def)
  next
    case False
    then show ?thesis using reg gate missed r
      by (simp add: processMessage_def Let_def setTyping_def)
  qed
qed

lemma throws_eq:
  "throws env msg st =
     (case map_of (registeredGroups st) (m_chat_jid msg) of
        None \<Rightarrow> None
      | Some grp \<Rightarrow>
          if \<not> trigger_gate grp (js_trim (m_content msg)) then None
          else (case getMessagesSince env (m_chat_jid msg)
                      (case lastAgentTimestamp st (m_chat_jid msg) of None \<Rightarrow> [] | Some t \<Rightarrow> t)
                      (getAssistantNameFromTrigger (g_trigger grp)) of
                  Inl err \<Rightarrow> Some err
                | Inr missed \<Rightarrow> snapshot_error env (g_folder grp)))"
proof (cases "map_of (registeredGroups st) (m_chat_jid msg)")
  case None
  then show ?thesis by (simp add: throws_def pm_unregistered)
next
  case (Some grp)
  show ?thesis
  proof (cases "trigger_gate grp (js_trim (m_content msg))")
    case False
    then show ?thesis using Some by (simp add: throws_def pm_gate)
  next
    case True
    show ?thesis
    proof (cases "getMessagesSince env (m_chat_jid msg)
                      (case lastAgentTimestamp st (m_chat_jid msg) of None \<Rightarrow> [] | Some t \<Rightarrow> t)
                      (getAssistantNameFromTrigger (g_trigger grp))")
      case (Inl err)
      then show ?thesis using Some True by (simp add: throws_def pm_store_throw)
    next
      case (Inr missed)
      show ?thesis
      proof (cases "snapshot_error env (g_folder grp)")
        case None
        from pm_run[OF Some True Inr None] show ?thesis
          using Some True Inr None by (auto simp: throws_def)
      next
        case (Some e)
        from pm_snapshot_throw[OF \<open>map_of (registeredGroups st) (m_chat_jid msg) = Some grp\<close> True Inr Some]
        show ?thesis
          using \<open>map_of (registeredGroups st) (m_chat_jid msg) = Some grp\<close> True Inr Some
          by (simp add: throws_def)
      qed
    qed
  qed
qed

lemma lastTimestamp_processMessage:
  "lastTimestamp (snd (processMessage env msg st)) = lastTimestamp st"
proof (cases "map_of (registeredGroups st) (m_chat_jid msg)")
  case None
  then show ?thesis by (simp add: pm_unregistered)
next
  case (Some grp)
  show ?thesis
  proof (cases "trigger_gate grp (js_trim (m_content msg))")
    case False
    then show ?thesis using Some by (simp add: pm_gate)
  next
    case True
    show ?thesis
    proof (cases "getMessagesSince env (m_chat_jid msg)
                      (case lastAgentTimestamp st (m_chat_jid msg) of None \<Rightarrow> [] | Some t \<Rightarrow> t)
                      (getAssistantNameFromTrigger (g_trigger grp))")
      case (Inl err)
      then show ?thesis using Some True by (simp add: pm_store_throw)
    next
      case (Inr missed)
      show ?thesis
      proof (cases "snapshot_error env (g_folder grp)")
        case None
        from pm_run[OF Some True Inr None] show ?thesis by auto
      next
        case (Some e)
        from pm_snapshot_throw[OF \<open>map_of (registeredGroups st) (m_chat_jid msg) = Some grp\<close> True Inr Some]
        show ?thesis by (simp add: setTyping_def)
      qed
    qed
  qed
qed

lemma agent_invoked_eq:
  "agent_invoked env msg st =
     (case map_of (registeredGroups st) (m_chat_jid msg) of
        None \<Rightarrow> False
      | Some grp \<Rightarrow>
          trigger_gate grp (js_trim (m_content msg))
          \<and> (case getMessagesSince env (m_chat_jid msg)
                      (case lastAgentTimestamp st (m_chat_jid msg) of None \<Rightarrow> [] | Some t \<Rightarrow> t)
                      (getAssistantNameFromTrigger (g_trigger grp)) of
                  Inl err \<Rightarrow> False
                | Inr missed \<Rightarrow> snapshot_error env (g_folder grp) = None))"
proof (cases "map_of (registeredGroups st) (m_chat_jid msg)")
  case None
  then show ?thesis by (simp add: agent_invoked_def pm_unregistered)
next
  case (Some grp)
  show ?thesis
  proof (cases "trigger_gate grp (js_trim (m_content msg))")
    case False
    then show ?thesis using Some by (simp add: agent_invoked_def pm_gate)
  next
    case True
    show ?thesis
    proof (cases "getMessagesSince env (m_chat_jid msg)
                      (case lastAgentTimestamp st (m_chat_jid msg) of None \<Rightarrow> [] | Some t \<Rightarrow> t)
                      (getAssistantNameFromTrigger (g_trigger grp))")
      case (Inl err)
      then show ?thesis using Some True by (simp add: agent_invoked_def pm_store_throw)
    next
      case (Inr missed)
      show ?thesis
      proof (cases "snapshot_error env (g_folder grp)")
        case None
        from pm_run[OF Some True Inr None] show ?thesis
          using Some True Inr None by (auto simp: agent_invoked_def)
      next
        case (Some e)
        from pm_snapshot_throw[OF \<open>map_of (registeredGroups st) (m_chat_jid msg) = Some grp\<close> True Inr Some]
        show ?thesis
          using \<open>map_of (registeredGroups st) (m_chat_jid msg) = Some grp\<close> True Inr Some
          by (simp add: agent_invoked_def setTyping_def)
      qed
    qed
  qed
qed

text \<open>
  Claim C7, as the code has it.  \<open>processMessage\<close> runs the container for a message
  exactly when the chat is registered, the content passes the gate, and preparing the run
  does not throw (the store returns the context and the snapshots are written).  The gate:
  the group is \<open>main\<close>, or the content with the white space at its ends removed begins,
  up to case, with \<open>@\<close> followed by the trigger without its leading \<open>@\<close>, and a word
  boundary follows (the pattern \<open>^@<name>\b\<close> with the flag \<open>i\<close>).
\<close>

theorem trigger_filter:
  "agent_invoked env msg st =
     (\<exists>grp. map_of (registeredGroups st) (m_chat_jid msg) = Some grp
        \<and> (g_folder grp = ''main'' \<or> starts_with_trigger (g_trigger grp) (js_trim (m_content msg)))
        \<and> (\<exists>missed. getMessagesSince env (m_chat_jid msg)
               (case lastAgentTimestamp st (m_chat_jid msg) of None \<Rightarrow> [] | Some t \<Rightarrow> t)
               (getAssistantNameFromTrigger (g_trigger grp)) = Inr missed)
        \<and> snapshot_error env (g_folder grp) = None)"
proof (cases "map_of (registeredGroups st) (m_chat_jid msg)")
  case None
  then show ?thesis by (simp add: agent_invoked_eq)
next
  case (Some grp)
  show ?thesis
  proof (cases "getMessagesSince env (m_chat_jid msg)
               (case lastAgentTimestamp st (m_chat_jid msg) of None \<Rightarrow> [] | Some t \<Rightarrow> t)
               (getAssistantNameFromTrigger (g_trigger grp))")
    case (Inl err)
    then show ?thesis using Some by (simp add: agent_invoked_eq)
  next
    case (Inr missed)
    then show ?thesis using Some
      by (simp add: agent_invoked_eq trigger_gate_eq MAIN_GROUP_FOLDER_def)
  qed
qed

text \<open>
  The theorem at three messages: \<open>@bhavi whats up?\<close> in the group with the trigger
  \<open>@Bhavi\<close> runs the container, \<open>@BhaviXYZ foo\<close> in the same group does not, and
  \<open>hello there\<close> in the main group does.
\<close>

theorem trigger_filter_witness:
  "agent_invoked (ex_env (Inr (ex_output StatusOk (Some ''hi'') None None)) True)
       (ex_message ''m1'' ''fam@g.us'' ''@bhavi whats up?'' ''2026-02-01T10:00:01Z'') ex_router
   \<and> \<not> agent_invoked (ex_env (Inr (ex_output StatusOk (Some ''hi'') None None)) True)
       (ex_message ''m2'' ''fam@g.us'' ''@BhaviXYZ foo'' ''2026-02-01T10:00:02Z'') ex_router
   \<and> agent_invoked (ex_env (Inr (ex_output StatusOk (Some ''hi'') None None)) True)
       (ex_message ''m3'' ''main@g.us'' ''hello there'' ''2026-02-01T10:00:03Z'') ex_router"
  using trigger_filter[of "ex_env (Inr (ex_output StatusOk (Some ''hi'') None None)) True"
          "ex_message ''m1'' ''fam@g.us'' ''@bhavi whats up?'' ''2026-02-01T10:00:01Z''" ex_router]
        trigger_filter[of "ex_env (Inr (ex_output StatusOk (Some ''hi'') None None)) True"
          "ex_message ''m2'' ''fam@g.us'' ''@BhaviXYZ foo'' ''2026-02-01T10:00:02Z''" ex_router]
        trigger_filter[of "ex_env (Inr (ex_output StatusOk (Some ''hi'') None None)) True"
          "ex_message ''m3'' ''main@g.us'' ''hello there'' ''2026-02-01T10:00:03Z''" ex_router]
  by (simp add: ex_intake_defs starts_with_trigger_def js_trim_def js_whitespace_def
        canonicalize_def word_boundary_def word_at_def word_char_def
        getAssistantNameFromTrigger_def Let_def)

text \<open>
  Claim C7 as stated fails against the pattern \<open>^<trigger>\b\<close> of the registered trigger
  on the message content.  In the group whose trigger is registered as \<open>Alfred\<close> the
  content \<open>Alfred hi\<close> matches that pattern and the container is not run (the code's
  pattern asks for \<open>@Alfred\<close>); in the group with the trigger \<open>@Bhavi\<close> the content
  \<open> @Bhavi hello\<close>, with a space in front, does not match it at the start and the
  container is run (the code trims the content first).
\<close>

theorem trigger_pattern_counterexample:
  "regex_test (spec_trigger_pattern ''Alfred'') ''Alfred hi''
   \<and> \<not> agent_invoked (ex_env (Inr (ex_output StatusOk (Some ''hi'') None None)) True)
         (ex_message ''m1'' ''work@g.us'' ''Alfred hi'' ''2026-02-01T10:00:01Z'') ex_router
   \<and> \<not> regex_test (spec_trigger_pattern ''@Bhavi'') '' @Bhavi hello''
   \<and> agent_invoked (ex_env (Inr (ex_output StatusOk (Some ''hi'') None None)) True)
         (ex_message ''m2'' ''fam@g.us'' '' @Bhavi hello'' ''2026-02-01T10:00:02Z'') ex_router"
  by (simp add: agent_invoked_eq trigger_gate_eq ex_intake_defs starts_with_trigger_def
        js_trim_def js_whitespace_def canonicalize_def word_boundary_def word_at_def word_char_def
        getAssistantNameFromTrigger_def Let_def spec_trigger_pattern_def regex_test_def
        MAIN_GROUP_FOLDER_def)

subsection \<open>The batch of one poll\<close>

lemma batch_stops_at_throw:
  "handled env (pre @ m # rest) st = pre \<Longrightarrow>
     process_batch env (pre @ m # rest) st = snd (processMessage env m (process_batch env pre st))
   \<and> throws env m (process_batch env pre st) \<noteq> None
   \<and> lastTimestamp (process_batch env pre st)
       = (if pre = [] then lastTimestamp st else m_timestamp (last pre))"
proof (induction pre arbitrary: st)
  case Nil
  then show ?case
    by (cases "processMessage env m st") (auto simp: throws_def split: option.splits)
next
  case (Cons p pre)
  obtain e st' where pm: "processMessage env p st = (e, st')" by (cases "processMessage env p st")
  with Cons.prems have e: "e = None" by (cases e) auto
  let ?st'' = "saveState (st'\<lparr>lastTimestamp := m_timestamp p\<rparr>)"
  have h: "handled env (pre @ m # rest) ?st'' = pre"
    using Cons.prems pm e by simp
  have lt: "lastTimestamp ?st'' = m_timestamp p" by (simp add: saveState_def)
  from Cons.IH[OF h] show ?case using pm e lt by simp
qed

lemma sorted_filter_after:
  assumes "sorted (map f (pre @ [p] @ m # rest))" "f p \<noteq> f m"
  shows "filter (\<lambda>x. f p < f x) (pre @ [p] @ m # rest) = m # rest"
proof -
  have pre: "\<forall>x \<in> set pre. \<not> f p < f x"
    using assms(1) by (auto simp: sorted_append)
  have m: "f p < f m"
    using assms by (auto simp: sorted_append order_less_le)
  have "\<forall>x \<in> set rest. f m \<le> f x"
    using assms(1) by (auto simp: sorted_append)
  with m have post: "\<forall>x \<in> set rest. f p < f x" by auto
  have "filter (\<lambda>x. f p < f x) pre = []" using pre by (simp add: filter_empty_conv)
  moreover have "filter (\<lambda>x. f p < f x) rest = rest" using post by (simp add: filter_id_conv)
  ultimately show ?thesis using m by simp
qed

lemma getNewMessages_resume:
  assumes batch: "getNewMessages store jids since bots = pre @ m # rest"
    and dist: "pre \<noteq> [] \<longrightarrow> m_timestamp (last pre) \<noteq> m_timestamp m"
  shows "getNewMessages store jids (if pre = [] then since else m_timestamp (last pre)) bots = m # rest"
proof (cases "pre = []")
  case True
  then show ?thesis using batch by simp
next
  case False
  then obtain pre' p where pre: "pre = pre' @ [p]" by (metis rev_exhaust)
  let ?Q = "\<lambda>x. m_chat_jid x \<in> set jids \<and> m_sender_name x \<notin> set bots"
  let ?P = "\<lambda>x. since < m_timestamp x \<and> ?Q x"
  have b: "sort_key m_timestamp (filter ?P store) = pre' @ [p] @ (m # rest)"
    using batch pre by (simp add: getNewMessages_def)
  have "p \<in> set (sort_key m_timestamp (filter ?P store))" using b by simp
  then have sp: "since < m_timestamp p" by auto
  have f: "filter (\<lambda>x. m_timestamp p < m_timestamp x \<and> ?Q x) store
         = filter (\<lambda>x. m_timestamp p < m_timestamp x) (filter ?P store)"
    using sp by (auto intro!: filter_cong)
  have srt: "sorted (map m_timestamp (pre' @ [p] @ (m # rest)))"
    using sorted_sort_key[of m_timestamp "filter ?P store"] b by simp
  have dst: "m_timestamp p \<noteq> m_timestamp m"
    using dist pre by simp
  have "getNewMessages store jids (m_timestamp p) bots
       = filter (\<lambda>x. m_timestamp p < m_timestamp x) (sort_key m_timestamp (filter ?P store))"
    by (simp only: getNewMessages_def f filter_sort)
  also have "\<dots> = m # rest"
    unfolding b by (rule sorted_filter_after[OF srt dst])
  finally show ?thesis using pre by simp
qed

text \<open>
  The retry branch of the loop.  In a batch, let \<open>m\<close> be the first message on which
  \<open>processMessage\<close> throws.  Then the batch stops at \<open>m\<close>: no later message is
  processed, \<open>lastTimestamp\<close> keeps the value it had before \<open>m\<close> (the timestamp of the
  message handled before it, or the value before the batch), and the next poll returns
  \<open>m\<close> first, provided the message handled just before \<open>m\<close> does not bear the timestamp
  of \<open>m\<close>.  What makes \<open>processMessage\<close> throw is a failure to read the context from
  the store or to write the snapshots, for a message that passes the trigger gate; the
  outcome of the container run and of the transport send is not among the causes.  After a
  message on which \<open>processMessage\<close> does not throw, the loop sets \<open>lastTimestamp\<close> to
  its timestamp.
\<close>

lemma batch_stops_and_resumes_at_throw:
  assumes batch: "getNewMessages store jids (lastTimestamp st) bots = pre @ m # rest"
    and dist: "pre \<noteq> [] \<longrightarrow> m_timestamp (last pre) \<noteq> m_timestamp m"
    and stop: "handled env (pre @ m # rest) st = pre"
  shows "throws env m (process_batch env pre st) \<noteq> None
     \<and> process_batch env (pre @ m # rest) st = snd (processMessage env m (process_batch env pre st))
     \<and> lastTimestamp (process_batch env (pre @ m # rest) st) = lastTimestamp (process_batch env pre st)
     \<and> lastTimestamp (process_batch env pre st)
         = (if pre = [] then lastTimestamp st else m_timestamp (last pre))
     \<and> getNewMessages store jids (lastTimestamp (process_batch env (pre @ m # rest) st)) bots = m # rest
     \<and> (\<forall>s. throws env m s =
          (case map_of (registeredGroups s) (m_chat_jid m) of
             None \<Rightarrow> None
           | Some grp \<Rightarrow>
               if \<not> trigger_gate grp (js_trim (m_content m)) then None
               else (case getMessagesSince env (m_chat_jid m)
                        (case lastAgentTimestamp s (m_chat_jid m) of None \<Rightarrow> [] | Some t \<Rightarrow> t)
                        (getAssistantNameFromTrigger (g_trigger grp)) of
                       Inl err \<Rightarrow> Some err
                     | Inr missed \<Rightarrow> snapshot_error env (g_folder grp))))
     \<and> (\<forall>s. throws env m s = None \<longrightarrow> lastTimestamp (process_batch env [m] s) = m_timestamp m)"
proof -
  have adv: "lastTimestamp (process_batch env [m] s) = m_timestamp m" if "throws env m s = None" for s
    using that by (cases "processMessage env m s") (simp add: throws_def saveState_def)
  note s = batch_stops_at_throw[OF stop]
  have lt: "lastTimestamp (process_batch env (pre @ m # rest) st) = lastTimestamp (process_batch env pre st)"
    using s by (simp add: lastTimestamp_processMessage)
  have nxt: "getNewMessages store jids (lastTimestamp (process_batch env (pre @ m # rest) st)) bots = m # rest"
    using getNewMessages_resume[OF batch dist] s lt by simp
  show ?thesis using s lt nxt throws_eq adv by blast
qed

text \<open>
  The retry at a store of three messages of which the second cannot be processed: the
  first is handled, the batch stops at the second, and the next poll starts with it.
\<close>

lemma batch_stops_and_resumes_at_throw_example:
  "getNewMessages ex_store ex_jids (lastTimestamp ex_router) ex_bots
     = [ex_message ''m1'' ''fam@g.us'' ''@Bhavi hello'' ''2026-02-01T10:00:01Z'']
       @ ex_message ''m2'' ''busy@g.us'' ''@Bhavi are you there'' ''2026-02-01T10:00:02Z''
       # [ex_message ''m3'' ''fam@g.us'' ''@Bhavi again'' ''2026-02-01T10:00:03Z'']
   \<and> handled (ex_env (Inr (ex_output StatusOk (Some ''hi'') None None)) True) ex_store ex_router
     = [ex_message ''m1'' ''fam@g.us'' ''@Bhavi hello'' ''2026-02-01T10:00:01Z'']
   \<and> lastTimestamp (process_batch (ex_env (Inr (ex_output StatusOk (Some ''hi'') None None)) True)
         ex_store ex_router) = ''2026-02-01T10:00:01Z''
   \<and> getNewMessages ex_store ex_jids
         (lastTimestamp (process_batch (ex_env (Inr (ex_output StatusOk (Some ''hi'') None None)) True)
            ex_store ex_router)) ex_bots
     = [ex_message ''m2'' ''busy@g.us'' ''@Bhavi are you there'' ''2026-02-01T10:00:02Z'',
        ex_message ''m3'' ''fam@g.us'' ''@Bhavi again'' ''2026-02-01T10:00:03Z'']"
  using batch_stops_and_resumes_at_throw[of ex_store ex_jids ex_router ex_bots
          "[ex_message ''m1'' ''fam@g.us'' ''@Bhavi hello'' ''2026-02-01T10:00:01Z'']"
          "ex_message ''m2'' ''busy@g.us'' ''@Bhavi are you there'' ''2026-02-01T10:00:02Z''"
          "[ex_message ''m3'' ''fam@g.us'' ''@Bhavi again'' ''2026-02-01T10:00:03Z'']"
          "ex_env (Inr (ex_output StatusOk (Some ''hi'') None None)) True"]
  by (simp add: ex_intake_defs getNewMessages_def trigger_gate_eq intake_eval_defs)

text \<open>
  When the message handled just before bears the same timestamp, the message on which
  \<open>processMessage\<close> throws is not returned by the next poll, which asks for the
  messages strictly newer than \<open>lastTimestamp\<close>.
\<close>

lemma same_timestamp_throw_is_not_retried:
  "handled (ex_env (Inr (ex_output StatusOk (Some ''hi'') None None)) True)
      [ex_message ''m1'' ''fam@g.us'' ''@Bhavi hello'' ''2026-02-01T10:00:01Z'',
       ex_message ''m2'' ''busy@g.us'' ''@Bhavi are you there'' ''2026-02-01T10:00:01Z''] ex_router
     = [ex_message ''m1'' ''fam@g.us'' ''@Bhavi hello'' ''2026-02-01T10:00:01Z'']
   \<and> getNewMessages
        [ex_message ''m1'' ''fam@g.us'' ''@Bhavi hello'' ''2026-02-01T10:00:01Z'',
         ex_message ''m2'' ''busy@g.us'' ''@Bhavi are you there'' ''2026-02-01T10:00:01Z'']
        ex_jids
        (lastTimestamp (poll (ex_env (Inr (ex_output StatusOk (Some ''hi'') None None)) True)
           [ex_message ''m1'' ''fam@g.us'' ''@Bhavi hello'' ''2026-02-01T10:00:01Z'',
            ex_message ''m2'' ''busy@g.us'' ''@Bhavi are you there'' ''2026-02-01T10:00:01Z'']
           ex_router))
        ex_bots
     = []"
  by (simp add: poll_def ex_intake_defs getNewMessages_def trigger_gate_eq intake_eval_defs)

text \<open>
  Claim C2 fails on the code.  The loop advances \<open>lastTimestamp\<close> only when
  \<open>processMessage\<close> returns without throwing, and its comments say that a failed
  message will be retried by the next loop; but \<open>runAgent\<close> catches a failed container
  run and returns the reply \<open>Error: ...\<close>, and \<open>sendMessage\<close> catches a failed send
  and logs it, so neither failure reaches the loop.  For a message of the chat
  \<open>fam@g.us\<close> whose container run throws a timeout, \<open>processMessage\<close> does not throw,
  the error text is sent as the reply, the poll sets \<open>lastTimestamp\<close> to the timestamp of
  the message, and the next poll does not return the message.  For the same message with a
  successful run whose reply the transport cannot send, \<open>processMessage\<close> does not throw,
  the reply is lost, the poll sets \<open>lastTimestamp\<close> to the timestamp of the message,
  and the next poll does not return the message.
\<close>

theorem failed_run_is_not_retried:
  "lastTimestamp ex_router = ''2026-02-01T09:59:59Z''
   \<and> getNewMessages [ex_message ''m1'' ''fam@g.us'' ''@Bhavi hello'' ''2026-02-01T10:00:01Z'']
         ex_jids (lastTimestamp ex_router) ex_bots
       = [ex_message ''m1'' ''fam@g.us'' ''@Bhavi hello'' ''2026-02-01T10:00:01Z'']
   \<and> throws (ex_env (Inl ''Container timed out after 300000ms'') True)
         (ex_message ''m1'' ''fam@g.us'' ''@Bhavi hello'' ''2026-02-01T10:00:01Z'') ex_router = None
   \<and> last (trace (poll (ex_env (Inl ''Container timed out after 300000ms'') True)
         [ex_message ''m1'' ''fam@g.us'' ''@Bhavi hello'' ''2026-02-01T10:00:01Z''] ex_router))
       = MessageSent ''fam@g.us'' ''Bhavi: Error: Container timed out after 300000ms''
   \<and> lastTimestamp (poll (ex_env (Inl ''Container timed out after 300000ms'') True)
         [ex_message ''m1'' ''fam@g.us'' ''@Bhavi hello'' ''2026-02-01T10:00:01Z''] ex_router)
       = ''2026-02-01T10:00:01Z''
   \<and> getNewMessages [ex_message ''m1'' ''fam@g.us'' ''@Bhavi hello'' ''2026-02-01T10:00:01Z'']
         ex_jids
         (lastTimestamp (poll (ex_env (Inl ''Container timed out after 300000ms'') True)
            [ex_message ''m1'' ''fam@g.us'' ''@Bhavi hello'' ''2026-02-01T10:00:01Z''] ex_router))
         ex_bots = []
   \<and> throws (ex_env (Inr (ex_output StatusOk (Some ''hi'') None None)) False)
         (ex_message ''m1'' ''fam@g.us'' ''@Bhavi hello'' ''2026-02-01T10:00:01Z'') ex_router = None
   \<and> last (trace (poll (ex_env (Inr (ex_output StatusOk (Some ''hi'') None None)) False)
         [ex_message ''m1'' ''fam@g.us'' ''@Bhavi hello'' ''2026-02-01T10:00:01Z''] ex_router))
       = SendFailed ''fam@g.us'' ''Bhavi: hi''
   \<and> lastTimestamp (poll (ex_env (Inr (ex_output StatusOk (Some ''hi'') None None)) False)
         [ex_message ''m1'' ''fam@g.us'' ''@Bhavi hello'' ''2026-02-01T10:00:01Z''] ex_router)
       = ''2026-02-01T10:00:01Z''
   \<and> getNewMessages [ex_message ''m1'' ''fam@g.us'' ''@Bhavi hello'' ''2026-02-01T10:00:01Z'']
         ex_jids
         (lastTimestamp (poll (ex_env (Inr (ex_output StatusOk (Some ''hi'') None None)) False)
            [ex_message ''m1'' ''fam@g.us'' ''@Bhavi hello'' ''2026-02-01T10:00:01Z''] ex_router))
         ex_bots = []"
  by (simp add: poll_def throws_def ex_intake_defs getNewMessages_def trigger_gate_eq intake_eval_defs)

section \<open>Properties of the IPC broker\<close>

lemmas ex_ipc_defs = ex_ipc_env_def ex_payload_def ex_task_def ex_world_def ex_register_payload_def
  ex_kb_delete_payload_def ex_router_def ex_group_def ex_source_def ex_chunk_def

lemmas ipc_eval_defs = processIpcFiles_def process_group_def process_task_file_def
  process_message_file_def source_groups_def task_files_def message_files_def is_json_name_def
  error_name_def unlink_def rename_def processTaskIpc_def handle_message_def kb_delete_def
  task_mutation_def deleteSource_def storage_deleteSource_def log_event_def ipc_sendMessage_def
  registerGroup_def getTaskById_def updateTask_status_def deleteTask_def tool_types_def
  sugar_list_projects_def
  known_types_def truthy_def MAIN_GROUP_FOLDER_def Let_def

lemma map_of_unlink: "map_of (unlink p fs) q = (if q = p then None else map_of fs q)"
  by (induction fs) (auto simp: unlink_def)

lemma map_of_rename:
  "q \<noteq> p \<Longrightarrow> map_of (rename p q fs) r =
     (case map_of fs p of
        None \<Rightarrow> map_of fs r
      | Some b \<Rightarrow> if r = q then Some b else if r = p then None else map_of fs r)"
  by (auto simp: rename_def update_conv' map_of_unlink split: option.splits)

lemma unknown_type_not_handled:
  assumes "case p_type data of None \<Rightarrow> True | Some ty \<Rightarrow> ty \<notin> set known_types"
  shows "processTaskIpc env data sourceGroup isMain w
           = (None, log_event LogWarn ''Unknown IPC task type'' w)"
  using assms by (auto simp: processTaskIpc_def known_types_def Let_def split: option.splits)

lemma register_group_rejected:
  assumes "p_type data = Some ''register_group''" "\<not> isMain"
  shows "processTaskIpc env data sourceGroup isMain w
           = (None, log_event LogWarn ''Unauthorized register_group attempt blocked'' w)"
  using assms by (simp add: processTaskIpc_def Let_def)

text \<open>
  Claim C10, as the code has it.  A file of a \<open>messages\<close> directory that parses to a
  value other than \<open>null\<close> which is not a message with a chat and a text is unlinked and
  nothing else changes; a file of a \<open>tasks\<close> directory that parses to a value other than
  \<open>null\<close> of an unrecognized type (or of none) is unlinked and nothing else changes but
  for the warning in the log.  Whenever the file parses to a value other than \<open>null\<close> and
  the handler returns without throwing, no file of \<open>errors\<close> is created or changed.  A
  file that parses to \<open>null\<close> is not deleted: reading \<open>data.type\<close> throws, the error
  is logged, and the file is moved to \<open>errors/<sourceGroup>-<name>\<close>.
\<close>

theorem non_actionable_payload_is_deleted:
  "(map_of fs (MessagesFile g f) = Some (Parsed data)
      \<and> \<not> (p_type data = Some ''message'' \<and> truthy (p_chatJid data) \<and> truthy (p_text data))
     \<longrightarrow> process_message_file env g f (fs, w) = (unlink (MessagesFile g f) fs, w))
   \<and> (map_of fs (TasksFile g f) = Some (Parsed data)
        \<and> (case p_type data of None \<Rightarrow> True | Some ty \<Rightarrow> ty \<notin> set known_types)
     \<longrightarrow> process_task_file env g f (fs, w)
          = (unlink (TasksFile g f) fs, log_event LogWarn ''Unknown IPC task type'' w))
   \<and> (map_of fs (MessagesFile g f) = Some (Parsed data)
     \<longrightarrow> map_of (fst (process_message_file env g f (fs, w))) (ErrorsFile n) = map_of fs (ErrorsFile n))
   \<and> (map_of fs (TasksFile g f) = Some (Parsed data)
        \<and> fst (processTaskIpc env data g (g = MAIN_GROUP_FOLDER) w) = None
     \<longrightarrow> map_of (fst (process_task_file env g f (fs, w))) (ErrorsFile n) = map_of fs (ErrorsFile n))
   \<and> (map_of fs (MessagesFile g f) = Some ParsedNull
     \<longrightarrow> process_message_file env g f (fs, w)
          = (rename (MessagesFile g f) (ErrorsFile (error_name g f)) fs,
             log_event LogError ''Error processing IPC message'' w)
        \<and> map_of (fst (process_message_file env g f (fs, w))) (ErrorsFile (error_name g f))
          = Some ParsedNull)
   \<and> (map_of fs (TasksFile g f) = Some ParsedNull
     \<longrightarrow> process_task_file env g f (fs, w)
          = (rename (TasksFile g f) (ErrorsFile (error_name g f)) fs,
             log_event LogError ''Error processing IPC task'' w)
        \<and> map_of (fst (process_task_file env g f (fs, w))) (ErrorsFile (error_name g f))
          = Some ParsedNull)"
proof -
  have a: "process_message_file env g f (fs, w) = (unlink (MessagesFile g f) fs, w)"
    if "map_of fs (MessagesFile g f) = Some (Parsed data)"
       "\<not> (p_type data = Some ''message'' \<and> truthy (p_chatJid data) \<and> truthy (p_text data))"
    using that by (auto simp: process_message_file_def handle_message_def Let_def)
  have b: "process_task_file env g f (fs, w)
          = (unlink (TasksFile g f) fs, log_event LogWarn ''Unknown IPC task type'' w)"
    if "map_of fs (TasksFile g f) = Some (Parsed data)"
       "case p_type data of None \<Rightarrow> True | Some ty \<Rightarrow> ty \<notin> set known_types"
    using that unknown_type_not_handled[OF that(2), of env g "g = MAIN_GROUP_FOLDER" w]
    by (simp add: process_task_file_def Let_def)
  have c: "map_of (fst (process_message_file env g f (fs, w))) (ErrorsFile n) = map_of fs (ErrorsFile n)"
    if "map_of fs (MessagesFile g f) = Some (Parsed data)"
    using that by (simp add: process_message_file_def Let_def map_of_unlink)
  have d: "map_of (fst (process_task_file env g f (fs, w))) (ErrorsFile n) = map_of fs (ErrorsFile n)"
    if "map_of fs (TasksFile g f) = Some (Parsed data)"
       "fst (processTaskIpc env data g (g = MAIN_GROUP_FOLDER) w) = None"
    using that
    by (cases "processTaskIpc env data g (g = MAIN_GROUP_FOLDER) w")
       (simp add: process_task_file_def Let_def map_of_unlink)
  have e: "process_message_file env g f (fs, w)
          = (rename (MessagesFile g f) (ErrorsFile (error_name g f)) fs,
             log_event LogError ''Error processing IPC message'' w)
        \<and> map_of (fst (process_message_file env g f (fs, w))) (ErrorsFile (error_name g f))
          = Some ParsedNull"
    if "map_of fs (MessagesFile g f) = Some ParsedNull"
    using that by (simp add: process_message_file_def Let_def map_of_rename)
  have h: "process_task_file env g f (fs, w)
          = (rename (TasksFile g f) (ErrorsFile (error_name g f)) fs,
             log_event LogError ''Error processing IPC task'' w)
        \<and> map_of (fst (process_task_file env g f (fs, w))) (ErrorsFile (error_name g f))
          = Some ParsedNull"
    if "map_of fs (TasksFile g f) = Some ParsedNull"
    using that by (simp add: process_task_file_def Let_def map_of_rename)
  show ?thesis using a b c d e h by blast
qed

text \<open>
  The theorem at a message file without a text, at a task file of the type
  \<open>frobnicate\<close>, and at a message file and a task file that hold \<open>null\<close>, all
  dropped by the group \<open>family\<close>.
\<close>

theorem non_actionable_payload_is_deleted_witness:
  "\<not> (p_type ((ex_payload ''message'')\<lparr>p_chatJid := Some ''fam@g.us''\<rparr>) = Some ''message''
        \<and> truthy (p_chatJid ((ex_payload ''message'')\<lparr>p_chatJid := Some ''fam@g.us''\<rparr>))
        \<and> truthy (p_text ((ex_payload ''message'')\<lparr>p_chatJid := Some ''fam@g.us''\<rparr>)))
   \<and> process_message_file ex_ipc_env ''family'' ''a.json''
        ([(MessagesFile ''family'' ''a.json'',
           Parsed ((ex_payload ''message'')\<lparr>p_chatJid := Some ''fam@g.us''\<rparr>))], ex_world)
      = ([], ex_world)
   \<and> ''frobnicate'' \<notin> set known_types
   \<and> process_task_file ex_ipc_env ''family'' ''b.json''
        ([(TasksFile ''family'' ''b.json'', Parsed (ex_payload ''frobnicate''))], ex_world)
      = ([], ex_world\<lparr>w_events := [Logged LogWarn ''Unknown IPC task type'']\<rparr>)
   \<and> process_message_file ex_ipc_env ''family'' ''n.json''
        ([(MessagesFile ''family'' ''n.json'', ParsedNull)], ex_world)
      = ([(ErrorsFile ''family-n.json'', ParsedNull)],
         ex_world\<lparr>w_events := [Logged LogError ''Error processing IPC message'']\<rparr>)
   \<and> process_task_file ex_ipc_env ''family'' ''o.json''
        ([(TasksFile ''family'' ''o.json'', ParsedNull)], ex_world)
      = ([(ErrorsFile ''family-o.json'', ParsedNull)],
         ex_world\<lparr>w_events := [Logged LogError ''Error processing IPC task'']\<rparr>)"
  using non_actionable_payload_is_deleted[of
          "[(MessagesFile ''family'' ''a.json'',
             Parsed ((ex_payload ''message'')\<lparr>p_chatJid := Some ''fam@g.us''\<rparr>))]"
          "''family''" "''a.json''" "(ex_payload ''message'')\<lparr>p_chatJid := Some ''fam@g.us''\<rparr>"
          ex_ipc_env ex_world "''family-a.json''"]
        non_actionable_payload_is_deleted[of
          "[(TasksFile ''family'' ''b.json'', Parsed (ex_payload ''frobnicate''))]"
          "''family''" "''b.json''" "ex_payload ''frobnicate''"
          ex_ipc_env ex_world "''family-b.json''"]
        non_actionable_payload_is_deleted[of
          "[(MessagesFile ''family'' ''n.json'', ParsedNull)]"
          "''family''" "''n.json''" "ex_payload ''message''"
          ex_ipc_env ex_world "''family-n.json''"]
        non_actionable_payload_is_deleted[of
          "[(TasksFile ''family'' ''o.json'', ParsedNull)]"
          "''family''" "''o.json''" "ex_payload ''message''"
          ex_ipc_env ex_world "''family-o.json''"]
  by (simp add: ex_ipc_defs ipc_eval_defs)

text \<open>
  Claim C10 as stated fails at a file that holds \<open>null\<close>.  Its JSON parses and it has no
  type, no chat and no text, yet after the broker has handled
  \<open>ipc/family/messages/n.json\<close> and \<open>ipc/family/tasks/n.json\<close> neither was deleted:
  both are in \<open>errors\<close>, and an error is logged for each.
\<close>

theorem null_payload_is_archived_counterexample:
  "fst (processIpcFiles ex_ipc_env
          ([(MessagesFile ''family'' ''n.json'', ParsedNull)], ex_world))
     = [(ErrorsFile ''family-n.json'', ParsedNull)]
   \<and> w_events (snd (processIpcFiles ex_ipc_env
          ([(MessagesFile ''family'' ''n.json'', ParsedNull)], ex_world)))
     = [Logged LogError ''Error processing IPC message'']
   \<and> fst (processIpcFiles ex_ipc_env
          ([(TasksFile ''family'' ''n.json'', ParsedNull)], ex_world))
     = [(ErrorsFile ''family-n.json'', ParsedNull)]
   \<and> w_events (snd (processIpcFiles ex_ipc_env
          ([(TasksFile ''family'' ''n.json'', ParsedNull)], ex_world)))
     = [Logged LogError ''Error processing IPC task'']"
  by (simp add: ex_ipc_defs ipc_eval_defs)

text \<open>
  Claim C9, as the code has it.  A \<open>register_group\<close> request dropped by a group other
  than \<open>main\<close> is refused with a warning in the log: no group is added, the file is
  unlinked, and nothing is moved to \<open>errors\<close>.  Every file the broker handles is gone
  from its directory afterwards.  A file is moved to \<open>errors/<sourceGroup>-<name>\<close>
  when it does not parse or when the handler throws.
\<close>

theorem rejected_register_group_is_dropped:
  "(map_of fs (TasksFile g f) = Some (Parsed data) \<and> p_type data = Some ''register_group''
      \<and> g \<noteq> ''main''
     \<longrightarrow> process_task_file env g f (fs, w)
          = (unlink (TasksFile g f) fs,
             log_event LogWarn ''Unauthorized register_group attempt blocked'' w))
   \<and> map_of (fst (process_task_file env g f (fs, w))) (TasksFile g f) = None
   \<and> map_of (fst (process_message_file env g f (fs, w))) (MessagesFile g f) = None
   \<and> (map_of fs (TasksFile g f) = Some (Parsed data)
        \<and> fst (processTaskIpc env data g (g = MAIN_GROUP_FOLDER) w) = None
     \<longrightarrow> fst (process_task_file env g f (fs, w)) = unlink (TasksFile g f) fs)
   \<and> (map_of fs (MessagesFile g f) = Some (Parsed data)
     \<longrightarrow> fst (process_message_file env g f (fs, w)) = unlink (MessagesFile g f) fs)
   \<and> (map_of fs (TasksFile g f) = Some Malformed
     \<longrightarrow> map_of (fst (process_task_file env g f (fs, w))) (ErrorsFile (error_name g f)) = Some Malformed)
   \<and> (map_of fs (MessagesFile g f) = Some Malformed
     \<longrightarrow> map_of (fst (process_message_file env g f (fs, w))) (ErrorsFile (error_name g f)) = Some Malformed)
   \<and> (map_of fs (TasksFile g f) = Some (Parsed data)
        \<and> fst (processTaskIpc env data g (g = MAIN_GROUP_FOLDER) w) \<noteq> None
     \<longrightarrow> map_of (fst (process_task_file env g f (fs, w))) (ErrorsFile (error_name g f))
          = Some (Parsed data))"
proof -
  have a: "process_task_file env g f (fs, w)
          = (unlink (TasksFile g f) fs,
             log_event LogWarn ''Unauthorized register_group attempt blocked'' w)"
    if "map_of fs (TasksFile g f) = Some (Parsed data)" "p_type data = Some ''register_group''"
       "g \<noteq> ''main''"
    using that register_group_rejected[OF that(2), of "g = MAIN_GROUP_FOLDER" env g w]
    by (simp add: process_task_file_def Let_def MAIN_GROUP_FOLDER_def)
  have b: "map_of (fst (process_task_file env g f (fs, w))) (TasksFile g f) = None"
  proof (cases "map_of fs (TasksFile g f)")
    case None
    then show ?thesis by (simp add: process_task_file_def Let_def map_of_rename)
  next
    case (Some body)
    show ?thesis
    proof (cases body)
      case (Parsed d)
      then show ?thesis using Some
        by (cases "processTaskIpc env d g (g = MAIN_GROUP_FOLDER) w")
           (auto simp: process_task_file_def Let_def map_of_unlink map_of_rename split: option.splits)
    next
      case ParsedNull
      then show ?thesis using Some by (simp add: process_task_file_def Let_def map_of_rename)
    next
      case Malformed
      then show ?thesis using Some by (simp add: process_task_file_def Let_def map_of_rename)
    qed
  qed
  have c: "map_of (fst (process_message_file env g f (fs, w))) (MessagesFile g f) = None"
  proof (cases "map_of fs (MessagesFile g f)")
    case None
    then show ?thesis by (simp add: process_message_file_def Let_def map_of_rename)
  next
    case (Some body)
    then show ?thesis
      by (cases body) (simp_all add: process_message_file_def Let_def map_of_unlink map_of_rename)
  qed
  have d: "map_of (fst (process_task_file env g f (fs, w))) (ErrorsFile (error_name g f)) = Some Malformed"
    if "map_of fs (TasksFile g f) = Some Malformed"
    using that by (simp add: process_task_file_def Let_def map_of_rename)
  have e: "map_of (fst (process_message_file env g f (fs, w))) (ErrorsFile (error_name g f)) = Some Malformed"
    if "map_of fs (MessagesFile g f) = Some Malformed"
    using that by (simp add: process_message_file_def Let_def map_of_rename)
  have h: "map_of (fst (process_task_file env g f (fs, w))) (ErrorsFile (error_name g f))
          = Some (Parsed data)"
    if "map_of fs (TasksFile g f) = Some (Parsed data)"
       "fst (processTaskIpc env data g (g = MAIN_GROUP_FOLDER) w) \<noteq> None"
    using that
    by (cases "processTaskIpc env data g (g = MAIN_GROUP_FOLDER) w")
       (auto simp: process_task_file_def Let_def map_of_rename)
  have i: "fst (process_task_file env g f (fs, w)) = unlink (TasksFile g f) fs"
    if "map_of fs (TasksFile g f) = Some (Parsed data)"
       "fst (processTaskIpc env data g (g = MAIN_GROUP_FOLDER) w) = None"
    using that
    by (cases "processTaskIpc env data g (g = MAIN_GROUP_FOLDER) w")
       (simp add: process_task_file_def Let_def)
  have j: "fst (process_message_file env g f (fs, w)) = unlink (MessagesFile g f) fs"
    if "map_of fs (MessagesFile g f) = Some (Parsed data)"
    using that by (simp add: process_message_file_def Let_def)
  show ?thesis using a b c d e h i j by blast
qed

text \<open>
  The theorem at the file \<open>ipc/family/tasks/x.json\<close> with a \<open>register_group\<close> request,
  at a file that does not parse, and at a \<open>pause_task\<close> request while the store fails.
\<close>

theorem rejected_register_group_is_dropped_witness:
  "p_type ex_register_payload = Some ''register_group'' \<and> ''family'' \<noteq> ''main''
   \<and> process_task_file ex_ipc_env ''family'' ''x.json''
        ([(TasksFile ''family'' ''x.json'', Parsed ex_register_payload)], ex_world)
      = ([], ex_world\<lparr>w_events := [Logged LogWarn ''Unauthorized register_group attempt blocked'']\<rparr>)
   \<and> fst (process_task_file ex_ipc_env ''family'' ''y.json''
        ([(TasksFile ''family'' ''y.json'', Malformed)], ex_world))
      = [(ErrorsFile ''family-y.json'', Malformed)]
   \<and> fst (processTaskIpc (ex_ipc_env\<lparr>db_failure := Some ''SQLITE_BUSY''\<rparr>)
        ((ex_payload ''pause_task'')\<lparr>p_taskId := Some ''task-7''\<rparr>) ''work''
        (''work'' = MAIN_GROUP_FOLDER) ex_world) \<noteq> None
   \<and> fst (process_task_file (ex_ipc_env\<lparr>db_failure := Some ''SQLITE_BUSY''\<rparr>) ''work'' ''z.json''
        ([(TasksFile ''work'' ''z.json'', Parsed ((ex_payload ''pause_task'')\<lparr>p_taskId := Some ''task-7''\<rparr>))],
         ex_world))
      = [(ErrorsFile ''work-z.json'', Parsed ((ex_payload ''pause_task'')\<lparr>p_taskId := Some ''task-7''\<rparr>))]"
  using rejected_register_group_is_dropped[of
          "[(TasksFile ''family'' ''x.json'', Parsed ex_register_payload)]"
          "''family''" "''x.json''" ex_register_payload ex_ipc_env ex_world]
        rejected_register_group_is_dropped[of
          "[(TasksFile ''family'' ''y.json'', Malformed)]"
          "''family''" "''y.json''" ex_register_payload ex_ipc_env ex_world]
        rejected_register_group_is_dropped[of
          "[(TasksFile ''work'' ''z.json'',
             Parsed ((ex_payload ''pause_task'')\<lparr>p_taskId := Some ''task-7''\<rparr>))]"
          "''work''" "''z.json''" "(ex_payload ''pause_task'')\<lparr>p_taskId := Some ''task-7''\<rparr>"
          "ex_ipc_env\<lparr>db_failure := Some ''SQLITE_BUSY''\<rparr>" ex_world]
  by (simp add: ex_ipc_defs ipc_eval_defs)

text \<open>
  Claim C9 as stated fails: after the broker has handled \<open>ipc/family/tasks/x.json\<close> with
  the \<open>register_group\<close> request, the tree is empty.  The file was unlinked, and there is
  no \<open>ipc/errors/family-x.json\<close>.
\<close>

theorem rejected_register_group_not_archived_counterexample:
  "fst (processIpcFiles ex_ipc_env
          ([(TasksFile ''family'' ''x.json'', Parsed ex_register_payload)], ex_world)) = []
   \<and> map_of (fst (processIpcFiles ex_ipc_env
          ([(TasksFile ''family'' ''x.json'', Parsed ex_register_payload)], ex_world)))
        (ErrorsFile ''family-x.json'') = None
   \<and> w_registeredGroups (snd (processIpcFiles ex_ipc_env
          ([(TasksFile ''family'' ''x.json'', Parsed ex_register_payload)], ex_world)))
      = w_registeredGroups ex_world"
  by (simp add: ex_ipc_defs ipc_eval_defs)

text \<open>
  A \<open>schedule_task\<close> request with an interval that leads beyond the range of \<open>Date\<close>
  makes the handler throw, so its file is moved to \<open>errors\<close> and no task is created; a
  directory named \<open>errors\<close> is not the directory of a source group.
\<close>

lemma interval_beyond_date_range_is_archived:
  "fst (processTaskIpc ex_ipc_env
          ((ex_payload ''schedule_task'')\<lparr>p_prompt := Some ''ping'', p_schedule_type := Some ''interval'',
             p_schedule_value := Some ''9000000000000000'', p_groupFolder := Some ''work''\<rparr>)
          ''work'' False ex_world)
     = Some ''Invalid time value''
   \<and> processIpcFiles ex_ipc_env
        ([(TasksFile ''work'' ''s.json'',
           Parsed ((ex_payload ''schedule_task'')\<lparr>p_prompt := Some ''ping'',
              p_schedule_type := Some ''interval'', p_schedule_value := Some ''9000000000000000'',
              p_groupFolder := Some ''work''\<rparr>))], ex_world)
     = ([(ErrorsFile ''work-s.json'',
          Parsed ((ex_payload ''schedule_task'')\<lparr>p_prompt := Some ''ping'',
             p_schedule_type := Some ''interval'', p_schedule_value := Some ''9000000000000000'',
             p_groupFolder := Some ''work''\<rparr>))],
        ex_world\<lparr>w_events := [Logged LogError ''Error processing IPC task'']\<rparr>)
   \<and> w_tasks (snd (processTaskIpc ex_ipc_env
          ((ex_payload ''schedule_task'')\<lparr>p_prompt := Some ''ping'', p_schedule_type := Some ''interval'',
             p_schedule_value := Some ''3600000'', p_groupFolder := Some ''work''\<rparr>)
          ''work'' False ex_world))
     = [ex_task,
        \<lparr> t_id = ''task-1'', t_group_folder = ''work'', t_chat_jid = ''work@g.us'',
          t_prompt = ''ping'', t_schedule_type = ''interval'', t_schedule_value = ''3600000'',
          t_context_mode = ''isolated'', t_next_run = Some ''2026-02-01T11:00:00.000Z'',
          t_status = ''active'', t_created_at = ''2026-02-01T10:00:00Z'' \<rparr>]
   \<and> processIpcFiles ex_ipc_env
        ([(TasksFile ''errors'' ''x.json'', Parsed ex_register_payload)], ex_world)
     = ([(TasksFile ''errors'' ''x.json'', Parsed ex_register_payload)], ex_world)"
  by (simp add: ex_ipc_defs ipc_eval_defs schedule_task_def compute_next_run_def
        date_toISOString_def MAX_TIME_VALUE_def js_parseInt_def js_whitespace_def is_digit_def
        digits_value_def digit_val_def new_task_def createTask_def)

subsection \<open>Authorization by origin\<close>

lemma events_handle_message:
  "\<exists>evs. w_events (handle_message env data g isMain w) = w_events w @ evs
     \<and> (\<forall>j t. Sent j t \<in> set evs \<longrightarrow>
           isMain \<or> (\<exists>grp. map_of (w_registeredGroups w) j = Some grp \<and> g_folder grp = g))"
  by (auto simp: handle_message_def Let_def log_event_def ipc_sendMessage_def)

text \<open>
  The handling of a \<open>message\<close> payload changes nothing but the events, and what it
  sends goes to a chat whose registered group is the source group, unless the source group
  is main.
\<close>

theorem ipc_message_only_to_own_chat:
  "w_registeredGroups (handle_message env data g isMain w) = w_registeredGroups w
   \<and> w_tasks (handle_message env data g isMain w) = w_tasks w
   \<and> w_kb (handle_message env data g isMain w) = w_kb w
   \<and> take (length (w_events w)) (w_events (handle_message env data g isMain w)) = w_events w
   \<and> (\<forall>j t. Sent j t \<in> set (drop (length (w_events w)) (w_events (handle_message env data g isMain w)))
         \<longrightarrow> isMain \<or> (\<exists>grp. map_of (w_registeredGroups w) j = Some grp \<and> g_folder grp = g))"
proof -
  from events_handle_message[of env data g isMain w] obtain evs where
    e: "w_events (handle_message env data g isMain w) = w_events w @ evs"
       "\<forall>j t. Sent j t \<in> set evs \<longrightarrow>
           isMain \<or> (\<exists>grp. map_of (w_registeredGroups w) j = Some grp \<and> g_folder grp = g)"
    by blast
  have f: "w_registeredGroups (handle_message env data g isMain w) = w_registeredGroups w
     \<and> w_tasks (handle_message env data g isMain w) = w_tasks w
     \<and> w_kb (handle_message env data g isMain w) = w_kb w"
    by (simp add: handle_message_def Let_def log_event_def ipc_sendMessage_def)
  show ?thesis using e f by simp
qed

text \<open>
  The theorem at a message of the group \<open>family\<close> to its own chat, which is sent, and
  at one to the chat of the group \<open>work\<close>, which is blocked.
\<close>

theorem ipc_message_only_to_own_chat_witness:
  "w_events (handle_message ex_ipc_env
       ((ex_payload ''message'')\<lparr>p_chatJid := Some ''fam@g.us'', p_text := Some ''hi''\<rparr>)
       ''family'' False ex_world)
     = [Sent ''fam@g.us'' ''Alfred: hi'', Logged LogInfo ''IPC message sent'']
   \<and> w_events (handle_message ex_ipc_env
       ((ex_payload ''message'')\<lparr>p_chatJid := Some ''work@g.us'', p_text := Some ''hi''\<rparr>)
       ''family'' False ex_world)
     = [Logged LogWarn ''Unauthorized IPC message attempt blocked'']"
  using ipc_message_only_to_own_chat[of ex_ipc_env
          "(ex_payload ''message'')\<lparr>p_chatJid := Some ''fam@g.us'', p_text := Some ''hi''\<rparr>"
          "''family''" False ex_world]
        ipc_message_only_to_own_chat[of ex_ipc_env
          "(ex_payload ''message'')\<lparr>p_chatJid := Some ''work@g.us'', p_text := Some ''hi''\<rparr>"
          "''family''" False ex_world]
  by (simp add: ex_ipc_defs ipc_eval_defs)

lemma filter_map_frame:
  "(\<And>x. x \<in> set xs \<Longrightarrow> P (f x) = P x) \<Longrightarrow> (\<And>x. x \<in> set xs \<Longrightarrow> P x \<Longrightarrow> f x = x)
     \<Longrightarrow> filter P (map f xs) = filter P xs"
  by (induction xs) auto

lemma find_distinct_id:
  assumes "find (\<lambda>t. t_id t = i) ts = Some task" "distinct (map t_id ts)" "t \<in> set ts" "t_id t = i"
  shows "t = task"
proof -
  from assms(1) have "task \<in> set ts" "t_id task = i"
    by (auto simp: find_Some_iff)
  with assms(2,3,4) show ?thesis by (metis distinct_map inj_onD)
qed

lemma task_mutation_found:
  "truthy (p_taskId data) \<Longrightarrow> db_failure env = None \<Longrightarrow>
   getTaskById w (the (p_taskId data)) = Some task \<Longrightarrow> t_group_folder task = g \<Longrightarrow>
   snd (task_mutation env data g isMain change done denied w)
     = log_event LogInfo done (change (the (p_taskId data)) w)"
  by (simp add: task_mutation_def)

lemma task_mutation_other:
  "\<not> isMain \<Longrightarrow>
   \<not> (truthy (p_taskId data) \<and> db_failure env = None
      \<and> (\<exists>task. getTaskById w (the (p_taskId data)) = Some task \<and> t_group_folder task = g)) \<Longrightarrow>
   w_tasks (snd (task_mutation env data g isMain change done denied w)) = w_tasks w"
  by (auto simp: task_mutation_def log_event_def split: option.splits)

lemma w_tasks_log_event [simp]: "w_tasks (log_event l m w) = w_tasks w"
  by (simp add: log_event_def)

lemma task_mutation_frame:
  assumes ni: "\<not> isMain" and d: "distinct (map t_id (w_tasks w))"
    and ch: "change = (\<lambda>i. updateTask_status i st) \<or> change = deleteTask"
  shows "filter (\<lambda>t. t_group_folder t \<noteq> g)
            (w_tasks (snd (task_mutation env data g isMain change done denied w)))
         = filter (\<lambda>t. t_group_folder t \<noteq> g) (w_tasks w)"
proof (cases "truthy (p_taskId data) \<and> db_failure env = None
      \<and> (\<exists>task. getTaskById w (the (p_taskId data)) = Some task \<and> t_group_folder task = g)")
  case False
  from task_mutation_other[OF ni False] show ?thesis by simp
next
  case True
  let ?i = "the (p_taskId data)"
  from True obtain task where task: "getTaskById w ?i = Some task" "t_group_folder task = g"
    by blast
  have other: "t_id t \<noteq> ?i" if "t \<in> set (w_tasks w)" "t_group_folder t \<noteq> g" for t
    using find_distinct_id[OF task(1)[unfolded getTaskById_def] d that(1)] that(2) task(2) by auto
  have "filter (\<lambda>t. t_group_folder t \<noteq> g) (w_tasks (change ?i w))
      = filter (\<lambda>t. t_group_folder t \<noteq> g) (w_tasks w)"
  proof (cases "change = deleteTask")
    case True
    have "filter (\<lambda>t. t_group_folder t \<noteq> g) (filter (\<lambda>t. t_id t \<noteq> ?i) (w_tasks w))
        = filter (\<lambda>t. t_group_folder t \<noteq> g) (w_tasks w)"
      using other by (auto intro: filter_cong)
    then show ?thesis using True by (simp add: deleteTask_def)
  next
    case False
    then have c: "change = (\<lambda>i. updateTask_status i st)" using ch by simp
    have "filter (\<lambda>t. t_group_folder t \<noteq> g)
            (map (\<lambda>t. if t_id t = ?i then t\<lparr>t_status := st\<rparr> else t) (w_tasks w))
        = filter (\<lambda>t. t_group_folder t \<noteq> g) (w_tasks w)"
      by (rule filter_map_frame) (use other in auto)
    then show ?thesis by (simp add: c updateTask_status_def)
  qed
  then show ?thesis using True task task_mutation_found[of data env w task g isMain change "done" denied]
    by simp
qed

lemma schedule_task_tasks:
  "w_tasks (snd (schedule_task env data g isMain w)) = w_tasks w
   \<or> ((isMain \<or> the (p_groupFolder data) = g)
      \<and> (\<exists>t. w_tasks (snd (schedule_task env data g isMain w)) = w_tasks w @ [t]
            \<and> t_group_folder t = the (p_groupFolder data)))"
  by (simp add: schedule_task_def Let_def createTask_def new_task_def
        split: option.splits prod.splits sum.splits next_run.splits)

lemma schedule_task_frame:
  assumes ni: "\<not> isMain"
  shows "filter (\<lambda>t. t_group_folder t \<noteq> g) (w_tasks (snd (schedule_task env data g isMain w)))
         = filter (\<lambda>t. t_group_folder t \<noteq> g) (w_tasks w)"
  using schedule_task_tasks[of env data g isMain w] ni by auto

text \<open>
  A \<open>schedule_task\<close>, \<open>pause_task\<close>, \<open>resume_task\<close> or \<open>cancel_task\<close> request of
  a source group other than main leaves the tasks of every other group as they are, the
  task ids being pairwise different.
\<close>

theorem task_requests_scoped_to_caller:
  assumes "ty \<in> {''schedule_task'', ''pause_task'', ''resume_task'', ''cancel_task''}"
    and "p_type data = Some ty" and "\<not> isMain" and "distinct (map t_id (w_tasks w))"
  shows "filter (\<lambda>t. t_group_folder t \<noteq> g) (w_tasks (snd (processTaskIpc env data g isMain w)))
         = filter (\<lambda>t. t_group_folder t \<noteq> g) (w_tasks w)"
proof -
  consider "ty = ''schedule_task''" | "ty = ''pause_task''" | "ty = ''resume_task''" | "ty = ''cancel_task''"
    using assms(1) by auto
  then show ?thesis
  proof cases
    case 1
    then show ?thesis using assms(2) schedule_task_frame[OF assms(3)]
      by (simp add: processTaskIpc_def)
  next
    case 2
    then show ?thesis
      using assms(2) task_mutation_frame[OF assms(3,4), of "\<lambda>i. updateTask_status i ''paused''" "''paused''"]
      by (simp add: processTaskIpc_def)
  next
    case 3
    then show ?thesis
      using assms(2) task_mutation_frame[OF assms(3,4), of "\<lambda>i. updateTask_status i ''active''" "''active''"]
      by (simp add: processTaskIpc_def)
  next
    case 4
    then show ?thesis
      using assms(2) task_mutation_frame[OF assms(3,4), of deleteTask]
      by (simp add: processTaskIpc_def)
  qed
qed

text \<open>
  The theorem at the task of the group \<open>work\<close>: the group \<open>family\<close> cannot cancel it,
  the group \<open>work\<close> pauses it.
\<close>

theorem task_requests_scoped_to_caller_witness:
  "''cancel_task'' \<in> {''schedule_task'', ''pause_task'', ''resume_task'', ''cancel_task''}
   \<and> ''pause_task'' \<in> {''schedule_task'', ''pause_task'', ''resume_task'', ''cancel_task''}
   \<and> distinct (map t_id (w_tasks ex_world))
   \<and> w_tasks (snd (processTaskIpc ex_ipc_env
         ((ex_payload ''cancel_task'')\<lparr>p_taskId := Some ''task-7''\<rparr>) ''family'' False ex_world))
     = [ex_task]
   \<and> map t_status (w_tasks (snd (processTaskIpc ex_ipc_env
         ((ex_payload ''pause_task'')\<lparr>p_taskId := Some ''task-7''\<rparr>) ''work'' False ex_world)))
     = [''paused'']"
  using task_requests_scoped_to_caller[of "''cancel_task''"
          "(ex_payload ''cancel_task'')\<lparr>p_taskId := Some ''task-7''\<rparr>" False ex_world
          "''family''" ex_ipc_env]
        task_requests_scoped_to_caller[of "''pause_task''"
          "(ex_payload ''pause_task'')\<lparr>p_taskId := Some ''task-7''\<rparr>" False ex_world
          "''work''" ex_ipc_env]
  by (simp add: ex_ipc_defs ipc_eval_defs)

text \<open>
  Claim C1 fails on the code at \<open>kb_delete\<close>.  The group \<open>family\<close> drops a
  \<open>kb_delete\<close> request that names itself as the target group and the id of a source of
  the group \<open>work\<close>.  The handler checks the target group against the caller and then
  deletes the source by its id alone: the source of \<open>work\<close> and its chunk are gone.
  A tool case such as \<open>sugar_list_projects\<close> sends its reply to the chat the payload
  names without any check: dropped by \<open>family\<close>, it sends to the chat of \<open>work\<close>.
\<close>

theorem kb_delete_crosses_groups:
  "map src_group_folder (kb_sources (w_kb ex_world)) = [''work'']
   \<and> p_sourceId ex_kb_delete_payload = Some ''kb-9''
   \<and> p_groupFolder ex_kb_delete_payload = Some ''family''
   \<and> fst (processTaskIpc ex_ipc_env ex_kb_delete_payload ''family'' False ex_world) = None
   \<and> kb_sources (w_kb (snd (processTaskIpc ex_ipc_env ex_kb_delete_payload ''family'' False ex_world))) = []
   \<and> kb_chunks (w_kb (snd (processTaskIpc ex_ipc_env ex_kb_delete_payload ''family'' False ex_world))) = []
   \<and> map_of (w_registeredGroups ex_world) ''work@g.us'' = Some (ex_group ''Work'' ''work'' ''Alfred'')
   \<and> w_events (snd (processTaskIpc ex_ipc_env
         ((ex_payload ''sugar_list_projects'')\<lparr>p_chatJid := Some ''work@g.us''\<rparr>) ''family'' False ex_world))
     = [Sent ''work@g.us''
         ''Alfred: No Sugar projects configured. Add projects to /srv/nanoclaw/data/sugar-projects.json'']"
  by (simp add: ex_ipc_defs ipc_eval_defs)

subsection \<open>External commands\<close>

text \<open>
  Claim C8 fails on the code.  The \<open>github_list_issues\<close> case splices the \<open>repo\<close> of the
  payload into a command line and hands it to the shell: with the repo
  \<open>o/r; touch /tmp/pwned #\<close> the shell is given two commands.  The \<open>sugar_add\<close> case
  escapes the task before it splices it between double quotes, but not the backslash: the
  task \<open>x\"; touch /tmp/pwned; echo \"\<close> closes the quotes.  The transcript extractor
  passes the URL as one argument of an argument vector.
\<close>

theorem tool_handlers_build_shell_commands:
  "github_list_issues_invocation ''/tmp/sugar-cmd-0.log''
      ((ex_payload ''github_list_issues'')\<lparr>p_repo := Some ''o/r; touch /tmp/pwned #''\<rparr>)
     = ShellCommand
         ''gh issue list --repo o/r; touch /tmp/pwned # --json number,title,state,labels 2>/tmp/sugar-cmd-0.log''
         30000
   \<and> sugar_add_invocation ''/tmp/sugar-cmd-0.log'' ''/p''
      ((ex_payload ''sugar_add'')\<lparr>p_task := Some (''x'' @ [CHR 0x5C, CHR 0x22] @ ''; touch /tmp/pwned; echo ''
                                                    @ [CHR 0x5C, CHR 0x22])\<rparr>)
     = ShellCommand
         (''cd '' @ [CHR 0x22] @ ''/p'' @ [CHR 0x22]
            @ '' && PYTHONPATH=/Users/neetidhingra/Github/bhavidhingraa/sugar:$PYTHONPATH python -m sugar.main add ''
            @ [CHR 0x22] @ ''x'' @ [CHR 0x5C, CHR 0x5C, CHR 0x22] @ ''; touch /tmp/pwned; echo ''
            @ [CHR 0x5C, CHR 0x5C, CHR 0x22] @ [CHR 0x22] @ '' 2>/tmp/sugar-cmd-0.log'')
         30000
   \<and> video_title_invocation ''yt-dlp'' ''https://youtu.be/x; touch /tmp/pwned''
     = ArgvCommand ''yt-dlp''
         [''--no-warnings'', ''--skip-download'', ''--print'', ''%(title)s'',
          ''https://youtu.be/x; touch /tmp/pwned''] 30000"
  by (simp add: github_list_issues_invocation_def github_list_issues_cmd_def execSyncCmd_def
        sugar_add_invocation_def sugar_add_cmd_def sugarCmd_def SUGAR_PATH_def safeTask_def
        safeType_def replace_all_def video_title_invocation_def ex_payload_def truthy_def
        number_truthy_def)

end
